theory Spec2Isabelle
  imports Complex_Main "HOL-Library.Word"
begin

section \<open>The C++ runtime the driver relies on\<close>

text \<open>
  The ROOT macro \<^verbatim>\<open>compute.cpp\<close> and \<^verbatim>\<open>simulate.cpp\<close> use \<^verbatim>\<open>std::string\<close>,
  \<^verbatim>\<open>std::ifstream\<close> and \<^verbatim>\<open>std::stringstream\<close>. Positions in a string are
  \<^verbatim>\<open>size_t\<close>, a 64-bit unsigned integer, so \<^verbatim>\<open>npos + 1\<close> wraps to 0.
  Strings are assumed shorter than \<open>2 ^ 64 - 1\<close> characters, as every \<^verbatim>\<open>std::string\<close> is.
  The only exception the two files can raise is the \<^verbatim>\<open>std::out_of_range\<close> of
  \<^verbatim>\<open>substr\<close>. An \<^verbatim>\<open>int\<close> is a 32-bit word read as two's complement: its sum and
  product are taken to wrap around, as they do in the compiled macro, and \<open><s\<close> is its
  order.
\<close>

type_synonym size_t = "64 word"

type_synonym int32 = "32 word"

datatype error = Out_of_range

definition npos :: size_t where
  "npos = - 1"

text \<open>\<^verbatim>\<open>s.find(c)\<close>: the position of the first \<open>c\<close>, or \<open>npos\<close>.\<close>

definition find_char :: "string \<Rightarrow> char \<Rightarrow> size_t" where
  "find_char s c =
     (if dropWhile (\<lambda>x. x \<noteq> c) s = [] then npos
      else of_nat (length (takeWhile (\<lambda>x. x \<noteq> c) s)))"

text \<open>\<^verbatim>\<open>s.find_first_not_of(cs)\<close> and \<^verbatim>\<open>s.find_last_not_of(cs)\<close>.\<close>

definition find_first_not_of :: "string \<Rightarrow> string \<Rightarrow> size_t" where
  "find_first_not_of s cs =
     (if dropWhile (\<lambda>x. x \<in> set cs) s = [] then npos
      else of_nat (length (takeWhile (\<lambda>x. x \<in> set cs) s)))"

definition find_last_not_of :: "string \<Rightarrow> string \<Rightarrow> size_t" where
  "find_last_not_of s cs =
     (if dropWhile (\<lambda>x. x \<in> set cs) (rev s) = [] then npos
      else of_nat (length s - 1 - length (takeWhile (\<lambda>x. x \<in> set cs) (rev s))))"

text \<open>
  \<^verbatim>\<open>s.substr(pos, n)\<close> throws \<^verbatim>\<open>std::out_of_range\<close> when \<open>pos > size()\<close> and
  otherwise returns at most \<open>n\<close> characters from \<open>pos\<close> on; \<open>pos = size()\<close> gives
  the empty string.
\<close>

definition substr :: "string \<Rightarrow> size_t \<Rightarrow> size_t \<Rightarrow> error + string" where
  "substr s pos n =
     (if length s < unat pos then Inl Out_of_range
      else Inr (take (min (unat n) (length s - unat pos)) (drop (unat pos) s)))"

text \<open>
  An input file stream is its unread characters, or \<open>None\<close> once it is no longer good
  (the file could not be opened, or the end of the file was reached).
  \<^verbatim>\<open>std::getline\<close> on a stream that is not good, or that has no character left, leaves
  the freshly constructed line empty.
\<close>

type_synonym ifstream = "string option"

definition newline :: char where
  "newline = CHR 0x0A"

definition getline :: "ifstream \<Rightarrow> string \<times> ifstream" where
  "getline is =
     (case is of
        None \<Rightarrow> ([], None)
      | Some buf \<Rightarrow>
          if buf = [] then ([], None)
          else (takeWhile (\<lambda>c. c \<noteq> newline) buf,
                if dropWhile (\<lambda>c. c \<noteq> newline) buf = [] then None
                else Some (tl (dropWhile (\<lambda>c. c \<noteq> newline) buf))))"

text \<open>
  The white space that the sentry of a formatted input skips (\<^verbatim>\<open>isspace\<close> in the C
  locale), and \<^verbatim>\<open>T val; stm >> val; return val;\<close> on a stream holding the text
  \<open>strval\<close>. The local \<open>val\<close> is not initialised: the parameter \<open>val\<close> is whatever its
  memory holds. The sentry skips the white space and, at the end of the text, fails
  without writing \<open>val\<close>. Otherwise the number is read by the library, the parameter
  \<open>extract\<close>, which gives the value it writes or \<open>None\<close> if it writes none. The state of
  the stream is never looked at.
\<close>

definition isspace :: "char \<Rightarrow> bool" where
  "isspace c = (c \<in> set [CHR '' '', CHR 0x09, CHR 0x0A, CHR 0x0B, CHR 0x0C, CHR 0x0D])"

definition stream_extract :: "(string \<Rightarrow> 'a option) \<Rightarrow> 'a \<Rightarrow> string \<Rightarrow> 'a" where
  "stream_extract extract val strval =
     (let text = dropWhile isspace strval in
      if text = [] then val
      else case extract text of None \<Rightarrow> val | Some written \<Rightarrow> written)"

section \<open>The grid description loader (compute.cpp)\<close>

text \<open>
  The \<^verbatim>\<open>struct grid_info\<close> of \<^verbatim>\<open>simulate.h\<close>, its fields in the order of the header.
  A \<^verbatim>\<open>double\<close> is a value of the type \<open>'d\<close>, whose arithmetic is a parameter.
\<close>

record 'd grid_info =
  num_electrodes :: int32
  dimx :: int32
  dimy :: int32
  dimz :: int32
  startx :: 'd
  endx :: 'd
  starty :: 'd
  endy :: 'd
  startz :: 'd
  endz :: 'd

text \<open>The two characters of the literal \<^verbatim>\<open>" \t"\<close>.\<close>

definition blanks :: string where
  "blanks = [CHR '' '', CHR 0x09]"

text \<open>
  Lines 16 to 23 of \<^verbatim>\<open>parse_param\<close>: the text handed to the string stream. The trim
  bounds are searched in \<open>line\<close>, and applied to \<open>rhs\<close>.
\<close>

definition strval_of :: "string \<Rightarrow> error + string" where
  "strval_of line =
     (let idx = find_char line CHR '':'' + 1 in
      case substr line idx npos of
        Inl e \<Rightarrow> Inl e
      | Inr rhs \<Rightarrow>
          let begin_pos = find_first_not_of line blanks;
              end_pos = find_last_not_of line blanks
          in substr rhs begin_pos (end_pos - begin_pos + 1))"

text \<open>
  \<^verbatim>\<open>parse_param<T>\<close>, with the number reader of the type \<open>T\<close> and the content of the
  uninitialised \<open>val\<close> as parameters. What the extraction leaves in \<open>val\<close> is returned
  whether or not it succeeded.
\<close>

definition parse_param ::
  "(string \<Rightarrow> 'a option) \<Rightarrow> 'a \<Rightarrow> ifstream \<Rightarrow> error + ('a \<times> ifstream)" where
  "parse_param extract val is =
     (let (line, is') = getline is in
      case strval_of line of
        Inl e \<Rightarrow> Inl e
      | Inr strval \<Rightarrow> Inr (stream_extract extract val strval, is'))"

text \<open>
  What the loader and the driver take from outside: the number readers for \<^verbatim>\<open>int\<close> and
  \<^verbatim>\<open>double\<close>, the content of the uninitialised \<open>val\<close> in each of the ten calls of
  \<^verbatim>\<open>parse_param\<close> (numbered from 1), the arithmetic of \<^verbatim>\<open>double\<close> (the type \<open>'d\<close>)
  with the conversion \<open>dbl\<close> from \<^verbatim>\<open>int\<close>, and the BemSolver library, whose answers
  may depend on every call made to it so far.
  Of the library only the result of \<^verbatim>\<open>Import\<close> and the value of \<^verbatim>\<open>calc_slow\<close> are
  looked at by the driver; \<^verbatim>\<open>FindElectrode\<close> is taken to return the electrode asked for.
  Each call is recorded; \<open>New_world\<close> stands for the constructor of \<^verbatim>\<open>D3world\<close> on the
  cache path, \<open>Insert\<close> and \<open>Set_voltage\<close> carry the name of the electrode.
\<close>

datatype 'd call =
    Mkdir string
  | Import string
  | New_world string
  | Insert string
  | Refine int
  | Correct_norm int int int
  | Solve
  | Set_voltage string int
  | Calc_slow 'd 'd 'd

record 'd env =
  extract_int :: "string \<Rightarrow> int32 option"
  extract_double :: "string \<Rightarrow> 'd option"
  uninit_int :: "nat \<Rightarrow> int32"
  uninit_double :: "nat \<Rightarrow> 'd"
  dbl :: "int32 \<Rightarrow> 'd"
  dadd :: "'d \<Rightarrow> 'd \<Rightarrow> 'd"
  dsub :: "'d \<Rightarrow> 'd \<Rightarrow> 'd"
  dmul :: "'d \<Rightarrow> 'd \<Rightarrow> 'd"
  ddiv :: "'d \<Rightarrow> 'd \<Rightarrow> 'd"
  import_ok :: "'d call list \<Rightarrow> string \<Rightarrow> bool"
  calc_slow :: "'d call list \<Rightarrow> 'd \<Rightarrow> 'd \<Rightarrow> 'd \<Rightarrow> 'd"

text \<open>
  \<^verbatim>\<open>read_grid_info\<close>: one line is read and dropped, then ten parameters are parsed, each
  from the next line. \<open>fs\<close> maps a path to the content of the file, if it can be read.
\<close>

definition read_grid_info ::
  "'d env \<Rightarrow> (string \<Rightarrow> string option) \<Rightarrow> string \<Rightarrow> error + 'd grid_info" where
  "read_grid_info env fs f =
     (let is0 = fs f;
          (dummy, is1) = getline is0
      in
       case parse_param (extract_int env) (uninit_int env 1) is1 of Inl e \<Rightarrow> Inl e | Inr (v1, is2) \<Rightarrow>
      (case parse_param (extract_int env) (uninit_int env 2) is2 of Inl e \<Rightarrow> Inl e | Inr (v2, is3) \<Rightarrow>
      (case parse_param (extract_int env) (uninit_int env 3) is3 of Inl e \<Rightarrow> Inl e | Inr (v3, is4) \<Rightarrow>
      (case parse_param (extract_int env) (uninit_int env 4) is4 of Inl e \<Rightarrow> Inl e | Inr (v4, is5) \<Rightarrow>
      (case parse_param (extract_double env) (uninit_double env 5) is5 of Inl e \<Rightarrow> Inl e | Inr (v5, is6) \<Rightarrow>
      (case parse_param (extract_double env) (uninit_double env 6) is6 of Inl e \<Rightarrow> Inl e | Inr (v6, is7) \<Rightarrow>
      (case parse_param (extract_double env) (uninit_double env 7) is7 of Inl e \<Rightarrow> Inl e | Inr (v7, is8) \<Rightarrow>
      (case parse_param (extract_double env) (uninit_double env 8) is8 of Inl e \<Rightarrow> Inl e | Inr (v8, is9) \<Rightarrow>
      (case parse_param (extract_double env) (uninit_double env 9) is9 of Inl e \<Rightarrow> Inl e | Inr (v9, is10) \<Rightarrow>
      (case parse_param (extract_double env) (uninit_double env 10) is10 of Inl e \<Rightarrow> Inl e | Inr (v10, is11) \<Rightarrow>
        Inr \<lparr>num_electrodes = v1, dimx = v2, dimy = v3, dimz = v4,
             startx = v5, endx = v8, starty = v6, endy = v9, startz = v7, endz = v10\<rparr>))))))))))"

section \<open>The sampling pass (simulate.cpp)\<close>

text \<open>
  The state is the sequence of calls made to ROOT and to the solver library, oldest first,
  and the output files, each the list of the values written to it, one per line.
  Progress messages on the log stream are left out.
\<close>

record 'd state =
  calls :: "'d call list"
  files :: "string \<Rightarrow> 'd list option"

definition call :: "'d call \<Rightarrow> 'd state \<Rightarrow> 'd state" where
  "call c st = st\<lparr>calls := calls st @ [c]\<rparr>"

text \<open>
  \<^verbatim>\<open>for (int i = a; i < n; i++) body\<close>. The counter stays below \<open>n\<close>, so that its
  increment never wraps and the loop ends.
\<close>

function for_loop :: "int32 \<Rightarrow> int32 \<Rightarrow> (int32 \<Rightarrow> 's \<Rightarrow> 's) \<Rightarrow> 's \<Rightarrow> 's" where
  "for_loop i n body s = (if i <s n then for_loop (i + 1) n body (body i s) else s)"
  by pat_completeness auto
termination
proof (relation "measure (\<lambda>(i, n, body, s). nat (sint n - sint i))")
  show "wf (measure (\<lambda>(i, n, body, s). nat (sint n - sint i)))"
    by simp
next
  fix i n :: int32 and body :: "int32 \<Rightarrow> 's \<Rightarrow> 's" and s :: 's
  assume "i <s n"
  hence less: "sint i < sint n"
    by (simp add: word_sless_alt)
  have "sint n < 2 ^ 31" "- (2 ^ 31) \<le> sint i"
    using sint_lt [of n] sint_ge [of i] by simp_all
  hence "signed_take_bit 31 (sint i + 1) = sint i + 1"
    using less by (intro signed_take_bit_int_eq_self) simp_all
  hence "sint (i + 1) = sint i + 1"
    by (simp add: sint_word_ariths)
  thus "((i + 1, n, body, body i s), (i, n, body, s))
          \<in> measure (\<lambda>(i, n, body, s). nat (sint n - sint i))"
    using less by simp
qed

declare for_loop.simps [simp del]

text \<open>
  \<^verbatim>\<open>stm << i\<close> for an \<^verbatim>\<open>int\<close>: the decimal digits of its value, after a minus sign
  if it is negative.
\<close>

definition digit_char :: "nat \<Rightarrow> char" where
  "digit_char d = ''0123456789'' ! d"

fun dec_nat :: "nat \<Rightarrow> string" where
  "dec_nat n = (if n < 10 then [digit_char n] else dec_nat (n div 10) @ [digit_char (n mod 10)])"

declare dec_nat.simps [simp del]

definition show_int :: "int32 \<Rightarrow> string" where
  "show_int i =
     (if i <s 0 then CHR ''-'' # dec_nat (nat (- sint i)) else dec_nat (nat (sint i)))"

text \<open>The loop of lines 42 to 46: every numbered electrode is inserted into the world.\<close>

definition insert_electrodes :: "int32 \<Rightarrow> 'd state \<Rightarrow> 'd state" where
  "insert_electrodes total_electrodes st =
     for_loop 0 total_electrodes (\<lambda>i. call (Insert (show_int i))) st"

text \<open>The loop of lines 69 to 77: one volt on the electrodes of the set, zero on the others.\<close>

definition set_voltages :: "int32 set \<Rightarrow> int32 \<Rightarrow> 'd state \<Rightarrow> 'd state" where
  "set_voltages electrodes total_electrodes st =
     for_loop 0 total_electrodes
       (\<lambda>i. call (Set_voltage (show_int i) (if i \<in> electrodes then 1 else 0))) st"

text \<open>
  Lines 89 to 91: the potential at one point is computed and sent to the output stream.
  The stream \<open>datafile\<close> is \<open>Some name\<close> when it is open on the file \<open>name\<close>, where the
  value is appended, and \<open>None\<close> when it could not be opened, where the value is lost.
\<close>

definition write_point ::
  "'d env \<Rightarrow> string option \<Rightarrow> 'd \<Rightarrow> 'd \<Rightarrow> 'd \<Rightarrow> 'd state \<Rightarrow> 'd state" where
  "write_point env datafile x y z st =
     (let phi = calc_slow env (calls st) x y z;
          st' = st\<lparr>calls := calls st @ [Calc_slow x y z]\<rparr>
      in case datafile of
           None \<Rightarrow> st'
         | Some name \<Rightarrow>
             st'\<lparr>files := (files st')(name \<mapsto>
               (case files st' name of None \<Rightarrow> [phi] | Some written \<Rightarrow> written @ [phi]))\<rparr>)"

text \<open>Lines 63 to 65 and 84 to 94: the step sizes and the three nested loops.\<close>

definition sample_grid ::
  "'d env \<Rightarrow> 'd grid_info \<Rightarrow> string option \<Rightarrow> 'd state \<Rightarrow> 'd state" where
  "sample_grid env info datafile st =
     (let xstep = ddiv env (dsub env (endx info) (startx info)) (dbl env (dimx info - 1));
          ystep = ddiv env (dsub env (endy info) (starty info)) (dbl env (dimy info - 1));
          zstep = ddiv env (dsub env (endz info) (startz info)) (dbl env (dimz info - 1))
      in for_loop 0 (dimx info) (\<lambda>i.
           for_loop 0 (dimy info) (\<lambda>j.
             for_loop 0 (dimz info) (\<lambda>k.
               write_point env datafile
                 (dadd env (startx info) (dmul env (dbl env i) xstep))
                 (dadd env (starty info) (dmul env (dbl env j) ystep))
                 (dadd env (startz info) (dmul env (dbl env k) zstep))))) st)"

text \<open>
  \<^verbatim>\<open>compute_potential\<close>. A failed import returns at once, and returns normally. The
  world is built on the cache path, filled, refined and solved whatever the set of
  electrodes is; an empty set returns after that. Otherwise the voltages are set, the
  output stream is opened and the grid is sampled into it. Opening the stream on a file
  name empties that file; on the null pointer, \<open>None\<close>, it opens no file, and the grid is
  sampled all the same. The number of electrodes of line 39 is computed in \<^verbatim>\<open>int\<close>.
\<close>

definition compute_potential ::
  "'d env \<Rightarrow> int32 set \<Rightarrow> 'd grid_info \<Rightarrow> string option \<Rightarrow> 'd state \<Rightarrow> 'd state" where
  "compute_potential env electrodes info outfile st =
     (let st1 = call (Mkdir ''gen.cache'') st;
          imported = import_ok env (calls st1) ''layout.dxf'';
          st2 = call (Import ''layout.dxf'') st1
      in if \<not> imported then st2
         else
           let st3 = call (New_world ''gen.cache/savedworld.data'') st2;
               total_electrodes = 2 * num_electrodes info + 2;
               st4 = insert_electrodes total_electrodes st3;
               st5 = call (Insert ''GROUND'') st4;
               st6 = call (Refine 100) st5;
               st7 = call (Correct_norm 0 0 0) st6;
               st8 = call Solve st7
           in if electrodes = {} then st8
              else
                let st9 = set_voltages electrodes total_electrodes st8;
                    st10 = call (Set_voltage ''GROUND'' 0) st9;
                    st11 = (case outfile of
                              None \<Rightarrow> st10
                            | Some name \<Rightarrow> st10\<lparr>files := (files st10)(name \<mapsto> [])\<rparr>)
                in sample_grid env info outfile st11)"

section \<open>The driver (compute.cpp)\<close>

text \<open>
  Lines 72 to 76: the electrodes held at one volt in the pass for index \<open>i\<close>. The sum is
  one of \<^verbatim>\<open>int\<close>.
\<close>

definition activation_set :: "'d grid_info \<Rightarrow> int32 \<Rightarrow> int32 set" where
  "activation_set info i =
     (let electrodes = insert i {} in
      if 0 <s i then insert (num_electrodes info + i) electrodes else electrodes)"

text \<open>Lines 78 to 80: \<^verbatim>\<open>FIELD_PREFIX << i << FIELD_SUFFIX\<close>.\<close>

definition field_file :: "int32 \<Rightarrow> string" where
  "field_file i = ''field'' @ show_int i @ ''.txt''"

text \<open>The loop of lines 69 to 83, from the index \<open>i\<close> on. Nothing in its body throws.\<close>

definition compute_loop ::
  "'d env \<Rightarrow> 'd grid_info \<Rightarrow> int32 \<Rightarrow> int32 \<Rightarrow> 'd state \<Rightarrow> 'd state" where
  "compute_loop env info i stop st =
     for_loop i stop
       (\<lambda>i. compute_potential env (activation_set info i) info (Some (field_file i))) st"

text \<open>
  \<^verbatim>\<open>compute(start, stop)\<close>, the entry point the specification calls \<open>run\<close>. Loading
  \<^verbatim>\<open>simulate.cpp\<close> into ROOT is not modelled.
\<close>

definition compute ::
  "'d env \<Rightarrow> (string \<Rightarrow> string option) \<Rightarrow> int32 \<Rightarrow> int32 \<Rightarrow> 'd state \<Rightarrow> error + 'd state" where
  "compute env fs start stop st =
     (case read_grid_info env fs ''grid.txt'' of
        Inl e \<Rightarrow> Inl e
      | Inr info \<Rightarrow>
          if start = stop then Inr (compute_potential env {} info None st)
          else Inr (compute_loop env info start stop st))"

section \<open>Notions of the specification\<close>

text \<open>
  The number of lines of a text: one per newline character, and one more for a last line
  that no newline ends.
\<close>

definition num_lines :: "string \<Rightarrow> nat" where
  "num_lines buf =
     length (filter (\<lambda>c. c = newline) buf) +
     (if buf = [] then 0 else if last buf = newline then 0 else 1)"

definition stream_lines :: "ifstream \<Rightarrow> nat" where
  "stream_lines is = (case is of None \<Rightarrow> 0 | Some buf \<Rightarrow> num_lines buf)"

definition unlines :: "string list \<Rightarrow> string" where
  "unlines ls = concat (map (\<lambda>l. l @ [newline]) ls)"

text \<open>
  The payload of a value line as the specification words it: what follows the first colon,
  without the blanks at either end.
\<close>

definition trim :: "string \<Rightarrow> string" where
  "trim s = rev (dropWhile (\<lambda>c. c \<in> set blanks) (rev (dropWhile (\<lambda>c. c \<in> set blanks) s)))"

definition payload_spec :: "string \<Rightarrow> string" where
  "payload_spec line = trim (tl (dropWhile (\<lambda>c. c \<noteq> CHR '':'') line))"

text \<open>
  A well-formed value line: a label that starts with a character other than a blank and
  has no colon, a colon, and a payload that does not end with a blank.
\<close>

definition value_line :: "string \<Rightarrow> string \<Rightarrow> string" where
  "value_line label payload = label @ CHR '':'' # payload"

definition wf_label :: "string \<Rightarrow> bool" where
  "wf_label label =
     (label \<noteq> [] \<and> hd label \<notin> set blanks \<and> CHR '':'' \<notin> set label \<and> newline \<notin> set label)"

definition wf_payload :: "string \<Rightarrow> bool" where
  "wf_payload payload =
     (newline \<notin> set payload \<and> (payload = [] \<or> last payload \<notin> set blanks))"

text \<open>
  A line that neither starts nor ends with a blank, and what follows its first colon:
  the whole line, if it has no colon.
\<close>

definition unpadded :: "string \<Rightarrow> bool" where
  "unpadded line =
     (line \<noteq> [] \<and> hd line \<notin> set blanks \<and> last line \<notin> set blanks \<and>
      newline \<notin> set line \<and> length line < 2 ^ 64 - 1)"


text \<open>
  The values of \<^verbatim>\<open>int\<close> from \<open>i\<close> up to \<open>n - 1\<close>, in increasing order.
\<close>

definition range32 :: "int32 \<Rightarrow> int32 \<Rightarrow> int32 list" where
  "range32 i n = map word_of_int [sint i..sint n - 1]"

text \<open>
  The grid in the order of the specification, X outermost and Z innermost, and the
  coordinates of its points: \<open>start + i * step\<close> with \<open>step = (end - start) / (dim - 1)\<close>.
\<close>

definition grid_order :: "'d grid_info \<Rightarrow> (int32 \<times> int32 \<times> int32) list" where
  "grid_order info =
     concat (map (\<lambda>i. concat (map (\<lambda>j. map (\<lambda>k. (i, j, k)) (range32 0 (dimz info)))
                                    (range32 0 (dimy info))))
                 (range32 0 (dimx info)))"

definition axis_point :: "'d env \<Rightarrow> 'd \<Rightarrow> 'd \<Rightarrow> int32 \<Rightarrow> int32 \<Rightarrow> 'd" where
  "axis_point env lo hi n i =
     dadd env lo (dmul env (dbl env i) (ddiv env (dsub env hi lo) (dbl env (n - 1))))"

definition grid_point ::
  "'d env \<Rightarrow> 'd grid_info \<Rightarrow> int32 \<times> int32 \<times> int32 \<Rightarrow> 'd \<times> 'd \<times> 'd" where
  "grid_point env info ijk =
     (case ijk of (i, j, k) \<Rightarrow>
        (axis_point env (startx info) (endx info) (dimx info) i,
         axis_point env (starty info) (endy info) (dimy info) j,
         axis_point env (startz info) (endz info) (dimz info) k))"

definition grid_points :: "'d env \<Rightarrow> 'd grid_info \<Rightarrow> ('d \<times> 'd \<times> 'd) list" where
  "grid_points env info = map (grid_point env info) (grid_order info)"

definition calc_at :: "'d \<times> 'd \<times> 'd \<Rightarrow> 'd call" where
  "calc_at p = (case p of (x, y, z) \<Rightarrow> Calc_slow x y z)"

text \<open>
  The potentials the solver gives at a list of points asked one after the other, \<open>h\<close>
  being the calls made before the first.
\<close>

fun potentials :: "'d env \<Rightarrow> 'd call list \<Rightarrow> ('d \<times> 'd \<times> 'd) list \<Rightarrow> 'd list" where
  "potentials env h [] = []"
| "potentials env h (p # ps) =
     (case p of (x, y, z) \<Rightarrow> calc_slow env h x y z) # potentials env (h @ [calc_at p]) ps"

text \<open>
  The calls of lines 26 to 33, and those of lines 36 to 54 that build and solve the world;
  the number of electrodes inserted is the \<^verbatim>\<open>int\<close> of line 39.
\<close>

definition import_calls :: "'d call list" where
  "import_calls = [Mkdir ''gen.cache'', Import ''layout.dxf'']"

definition solve_calls :: "'d grid_info \<Rightarrow> 'd call list" where
  "solve_calls info =
     New_world ''gen.cache/savedworld.data'' #
     map (\<lambda>k. Insert (show_int k)) (range32 0 (2 * num_electrodes info + 2)) @
     [Insert ''GROUND'', Refine 100, Correct_norm 0 0 0, Solve]"

text \<open>The calls of lines 69 to 79, which set the voltages.\<close>

definition voltage_calls :: "int32 set \<Rightarrow> 'd grid_info \<Rightarrow> 'd call list" where
  "voltage_calls electrodes info =
     map (\<lambda>k. Set_voltage (show_int k) (if k \<in> electrodes then 1 else 0))
       (range32 0 (2 * num_electrodes info + 2)) @
     [Set_voltage ''GROUND'' 0]"

text \<open>One step of the innermost loop, at a point given as a triple.\<close>

definition write_at ::
  "'d env \<Rightarrow> string option \<Rightarrow> 'd \<times> 'd \<times> 'd \<Rightarrow> 'd state \<Rightarrow> 'd state" where
  "write_at env datafile p = (case p of (x, y, z) \<Rightarrow> write_point env datafile x y z)"

text \<open>The voltages a sequence of calls sets, in order.\<close>

fun voltages :: "'d call list \<Rightarrow> (string \<times> int) list" where
  "voltages [] = []"
| "voltages (Set_voltage name v # cs) = (name, v) # voltages cs"
| "voltages (c # cs) = voltages cs"

section \<open>A solver and a run-time to evaluate the driver on\<close>

text \<open>
  The number reader for an \<^verbatim>\<open>int\<close>, as the C++11 library does it: a sign and the
  decimal digits after it are read, the value is clamped to 32 bits, and a text without
  a digit writes zero. The \<^verbatim>\<open>double\<close> is the real number of such an integer text, which
  is all the examples below need. The uninitialised variables hold \<open>- 1\<close>.
\<close>

definition isdigit :: "char \<Rightarrow> bool" where
  "isdigit c = (c \<in> set ''0123456789'')"

definition digit_val :: "char \<Rightarrow> nat" where
  "digit_val c = length (takeWhile (\<lambda>d. d \<noteq> c) ''0123456789'')"

definition digits_val :: "string \<Rightarrow> nat" where
  "digits_val ds = fold (\<lambda>c n. 10 * n + digit_val c) ds 0"

definition istream_int :: "string \<Rightarrow> int" where
  "istream_int t =
     (let negative = (t \<noteq> [] \<and> hd t = CHR ''-'');
          u = (if t \<noteq> [] \<and> (hd t = CHR ''-'' \<or> hd t = CHR ''+'') then tl t else t);
          ds = takeWhile isdigit u;
          v = int (digits_val ds)
      in if ds = [] then 0
         else if negative then max (- 2147483648) (- v)
         else min 2147483647 v)"

definition test_env :: "real env" where
  "test_env =
     \<lparr>extract_int = (\<lambda>t. Some (word_of_int (istream_int t))),
      extract_double = (\<lambda>t. Some (real_of_int (istream_int t))),
      uninit_int = (\<lambda>k. - 1),
      uninit_double = (\<lambda>k. - 1),
      dbl = (\<lambda>i. real_of_int (sint i)),
      dadd = (\<lambda>a b. a + b),
      dsub = (\<lambda>a b. a - b),
      dmul = (\<lambda>a b. a * b),
      ddiv = (\<lambda>a b. a / b),
      import_ok = (\<lambda>h f. True),
      calc_slow = (\<lambda>h x y z. x + 2 * y + 4 * z)\<rparr>"

text \<open>A layout that cannot be imported, and one that can only from the second attempt on.\<close>

definition no_layout_env :: "real env" where
  "no_layout_env = test_env\<lparr>import_ok := (\<lambda>h f. False)\<rparr>"

definition late_layout_env :: "real env" where
  "late_layout_env = test_env\<lparr>import_ok := (\<lambda>h f. Import f \<in> set h)\<rparr>"

text \<open>The grid file of the scenario of the specification, and the grid it describes.\<close>

definition test_grid_file :: string where
  "test_grid_file =
     unlines [''---'', ''num_electrodes: 3'', ''dimx: 2'', ''dimy: 2'', ''dimz: 2'',
              ''startx: 0'', ''starty: 0'', ''startz: 0'', ''endx: 1'', ''endy: 1'', ''endz: 1'']"

definition test_items :: "(string \<times> string) list" where
  "test_items =
     [(''num_electrodes'', '' 3''), (''dimx'', '' 2''), (''dimy'', '' 2''), (''dimz'', '' 2''),
      (''startx'', '' 0''), (''starty'', '' 0''), (''startz'', '' 0''),
      (''endx'', '' 1''), (''endy'', '' 1''), (''endz'', '' 1'')]"

definition test_fs :: "string \<Rightarrow> string option" where
  "test_fs path = (if path = ''grid.txt'' then Some test_grid_file else None)"

definition test_info :: "real grid_info" where
  "test_info =
     \<lparr>num_electrodes = 3, dimx = 2, dimy = 2, dimz = 2,
      startx = 0, endx = 1, starty = 0, endy = 1, startz = 0, endz = 1\<rparr>"

definition empty_state :: "real state" where
  "empty_state = \<lparr>calls = [], files = (\<lambda>name. None)\<rparr>"

section \<open>Strings and streams\<close>

lemma unat_npos: "unat npos = 18446744073709551615"
  unfolding npos_def by (simp add: unsigned_minus_1_eq_mask mask_eq_exp_minus_1)

lemma npos_Suc: "npos + 1 = 0"
  by (simp add: npos_def)

lemma unat_of_nat_size: "n < 2 ^ 64 - 1 \<Longrightarrow> unat (of_nat n :: size_t) = n"
  by (simp add: unat_of_nat)

lemma substr_error: "substr s pos n = Inl e \<Longrightarrow> e = Out_of_range"
  by (simp add: substr_def split: if_splits)

lemma substr_whole: "length s < 2 ^ 64 - 1 \<Longrightarrow> substr s 0 npos = Inr s"
  by (simp add: substr_def unat_npos)

lemma substr_npos: "length s < 2 ^ 64 - 1 \<Longrightarrow> substr s npos n = Inl Out_of_range"
  by (simp add: substr_def unat_npos)

lemma substr_prefix:
  "length s \<le> n \<Longrightarrow> n < 2 ^ 64 - 1 \<Longrightarrow> substr s 0 (of_nat n) = Inr s"
  by (simp add: substr_def unat_of_nat_size)

lemma substr_rest:
  assumes "length (pre @ c # post) < 2 ^ 64 - 1"
  shows "substr (pre @ c # post) (of_nat (length pre) + 1) npos = Inr post"
proof -
  have "(of_nat (length pre) + 1 :: size_t) = of_nat (Suc (length pre))" by simp
  moreover have "unat (of_nat (Suc (length pre)) :: size_t) = Suc (length pre)"
    using assms by (intro unat_of_nat_size) simp
  ultimately have u: "unat (of_nat (length pre) + 1 :: size_t) = Suc (length pre)"
    by (simp only:)
  show ?thesis unfolding substr_def u unat_npos using assms by simp
qed

lemma find_char_absent: "c \<notin> set s \<Longrightarrow> find_char s c = npos"
proof -
  assume "c \<notin> set s"
  then have "dropWhile (\<lambda>x. x \<noteq> c) s = []" by auto
  then show ?thesis by (simp add: find_char_def)
qed

lemma find_char_first:
  "c \<notin> set pre \<Longrightarrow> find_char (pre @ c # post) c = of_nat (length pre)"
proof -
  assume "c \<notin> set pre"
  then have p: "\<And>x. x \<in> set pre \<Longrightarrow> x \<noteq> c" by auto
  have "takeWhile (\<lambda>x. x \<noteq> c) (pre @ c # post) = pre" using p by simp
  moreover have "dropWhile (\<lambda>x. x \<noteq> c) (pre @ c # post) = c # post" using p by simp
  ultimately show ?thesis by (simp add: find_char_def)
qed

lemma find_first_not_of_blank:
  "set line \<subseteq> set cs \<Longrightarrow> find_first_not_of line cs = npos"
proof -
  assume "set line \<subseteq> set cs"
  then have "dropWhile (\<lambda>x. x \<in> set cs) line = []" by auto
  then show ?thesis by (simp add: find_first_not_of_def)
qed

lemma find_first_not_of_hd:
  "s \<noteq> [] \<Longrightarrow> hd s \<notin> set cs \<Longrightarrow> find_first_not_of s cs = 0"
  by (cases s) (simp_all add: find_first_not_of_def)

lemma find_last_not_of_last:
  "s \<noteq> [] \<Longrightarrow> last s \<notin> set cs \<Longrightarrow> find_last_not_of s cs = of_nat (length s - 1)"
proof -
  assume "s \<noteq> []" and "last s \<notin> set cs"
  then obtain x xs where r: "rev s = x # xs" and x: "x \<notin> set cs"
    by (cases s rule: rev_cases) auto
  then show ?thesis by (simp add: find_last_not_of_def)
qed

lemma trim_count: "0 < n \<Longrightarrow> (of_nat (n - 1) :: size_t) - 0 + 1 = of_nat n"
  by (cases n) simp_all

lemma newline_char: "newline = CHR 0x0A" by (simp add: newline_def)

lemma getline_None: "getline None = ([], None)"
  by (simp add: getline_def)

lemma getline_empty: "getline (Some []) = ([], None)"
  by (simp add: getline_def)

lemma getline_line:
  "newline \<notin> set l \<Longrightarrow> getline (Some (l @ newline # rest)) = (l, Some rest)"
proof -
  assume "newline \<notin> set l"
  then have l: "\<And>x. x \<in> set l \<Longrightarrow> x \<noteq> newline" by auto
  have "takeWhile (\<lambda>c. c \<noteq> newline) (l @ newline # rest) = l"
    using l by simp
  moreover have "dropWhile (\<lambda>c. c \<noteq> newline) (l @ newline # rest) = newline # rest"
    using l by simp
  ultimately show ?thesis by (simp add: getline_def)
qed

lemma getline_last:
  assumes "newline \<notin> set l" and "tail = [] \<or> hd tail = newline"
  shows "fst (getline (Some (l @ tail))) = l"
proof (cases tail)
  case Nil
  have "takeWhile (\<lambda>c. c \<noteq> newline) l = l"
    using assms(1) by (intro takeWhile_eq_all_conv[THEN iffD2]) auto
  with Nil show ?thesis by (simp add: getline_def)
next
  case (Cons c rest)
  with assms(2) have "tail = newline # rest" by simp
  with assms(1) show ?thesis by (simp add: getline_line)
qed

lemma getline_unlines: "newline \<notin> set l \<Longrightarrow> getline (Some (unlines (l # ls))) = (l, Some (unlines ls))"
  by (simp add: unlines_def getline_line)

lemma unlines_Cons_append: "unlines (l # ls) @ rest = l @ newline # (unlines ls @ rest)"
  by (simp add: unlines_def)

lemma unlines_Nil_append: "unlines [] @ rest = rest"
  by (simp add: unlines_def)

lemma num_lines_0: "num_lines buf = 0 \<Longrightarrow> buf = []"
  by (cases buf rule: rev_cases) (auto simp: num_lines_def split: if_splits)

lemma num_lines_line:
  "filter (\<lambda>c. c = newline) a = [] \<Longrightarrow> num_lines (a @ newline # rest) = Suc (num_lines rest)"
  by (simp add: num_lines_def)

lemma num_lines_last:
  "filter (\<lambda>c. c = newline) a = [] \<Longrightarrow> a \<noteq> [] \<Longrightarrow> num_lines a = 1"
proof -
  assume a: "filter (\<lambda>c. c = newline) a = []" and "a \<noteq> []"
  then have "last a \<in> set a" by simp
  with a have "last a \<noteq> newline" by (auto simp: filter_empty_conv)
  with a \<open>a \<noteq> []\<close> show ?thesis by (simp add: num_lines_def)
qed

lemma getline_stream_lines: "stream_lines (snd (getline is)) = stream_lines is - 1"
proof (cases "is")
  case None
  then show ?thesis by (simp add: getline_def stream_lines_def)
next
  case (Some buf)
  show ?thesis
  proof (cases "buf = []")
    case True
    with Some show ?thesis by (simp add: getline_def stream_lines_def num_lines_def)
  next
    case False
    define a where "a = takeWhile (\<lambda>c. c \<noteq> newline) buf"
    define b where "b = dropWhile (\<lambda>c. c \<noteq> newline) buf"
    have buf: "buf = a @ b" by (simp add: a_def b_def)
    have a: "filter (\<lambda>c. c = newline) a = []"
      unfolding a_def by (auto simp: filter_empty_conv dest: set_takeWhileD)
    have g: "snd (getline (Some buf)) = (if b = [] then None else Some (tl b))"
      using False by (auto simp: getline_def b_def)
    show ?thesis
    proof (cases b)
      case Nil
      with buf have "buf = a" by simp
      with False a have "num_lines buf = 1" by (simp add: num_lines_last)
      with Nil show ?thesis unfolding Some g by (simp add: stream_lines_def)
    next
      case (Cons c rest)
      have "c = newline"
        using Cons hd_dropWhile[of "\<lambda>c. c \<noteq> newline" buf] by (simp add: b_def)
      with Cons buf have "buf = a @ newline # rest" by simp
      with a have "num_lines buf = Suc (num_lines rest)" by (simp add: num_lines_line)
      with Cons show ?thesis unfolding Some g by (simp add: stream_lines_def)
    qed
  qed
qed

lemma getline_exhausted: "stream_lines is = 0 \<Longrightarrow> getline is = ([], None)"
proof -
  assume "stream_lines is = 0"
  then have "is = None \<or> is = Some []"
    by (auto simp: stream_lines_def dest: num_lines_0 split: option.splits)
  then show ?thesis by (auto simp: getline_None getline_empty)
qed

section \<open>Parsing one parameter\<close>

lemma strval_of_error: "strval_of line = Inl e \<Longrightarrow> e = Out_of_range"
  by (auto simp: strval_of_def Let_def split: sum.splits dest: substr_error)

lemma strval_of_blank:
  assumes "set line \<subseteq> set blanks" and "length line < 2 ^ 64 - 1"
  shows "strval_of line = Inl Out_of_range"
proof -
  have "CHR '':'' \<notin> set line" using assms(1) by (auto simp: blanks_def)
  then have "find_char line CHR '':'' + 1 = 0" by (simp add: find_char_absent npos_Suc)
  moreover have "find_first_not_of line blanks = npos"
    using assms(1) by (rule find_first_not_of_blank)
  ultimately show ?thesis using assms(2)
    by (simp add: strval_of_def substr_whole substr_npos)
qed

lemma strval_of_value_line:
  assumes "wf_label label" and "wf_payload payload"
    and "length (value_line label payload) < 2 ^ 64 - 1"
  shows "strval_of (value_line label payload) = Inr payload"
proof -
  let ?line = "label @ CHR '':'' # payload"
  have len: "length ?line < 2 ^ 64 - 1" using assms(3) by (simp add: value_line_def)
  have colon: "CHR '':'' \<notin> set label" and l: "label \<noteq> []" "hd label \<notin> set blanks"
    using assms(1) by (simp_all add: wf_label_def)
  have ne: "?line \<noteq> []" by simp
  have hd: "hd ?line \<notin> set blanks" using l by simp
  have "last ?line \<notin> set blanks"
    using assms(2) by (auto simp: wf_payload_def blanks_def)
  with ne have e: "find_last_not_of ?line blanks = of_nat (length ?line - 1)"
    by (rule find_last_not_of_last)
  have b: "find_first_not_of ?line blanks = 0" using ne hd by (rule find_first_not_of_hd)
  have i: "find_char ?line CHR '':'' = of_nat (length label)"
    using colon by (rule find_char_first)
  have r: "substr ?line (of_nat (length label) + 1) npos = Inr payload"
    using len by (rule substr_rest)
  have c: "(of_nat (length ?line - 1) :: size_t) - 0 + 1 = of_nat (length ?line)"
    by (rule trim_count) simp
  have s: "substr payload 0 (of_nat (length ?line)) = Inr payload"
    using len by (intro substr_prefix) simp_all
  show ?thesis
    unfolding value_line_def strval_of_def Let_def i r b e c by (simp only: sum.case s)
qed





lemma unpadded_value_line:
  assumes "wf_label label" and "wf_payload payload"
    and "length (value_line label payload) < 2 ^ 64 - 1"
  shows "unpadded (value_line label payload)"
proof -
  have "last (label @ CHR '':'' # payload) \<notin> set blanks"
    using assms(2) by (auto simp: wf_payload_def blanks_def)
  then show ?thesis
    using assms by (simp add: unpadded_def value_line_def wf_label_def wf_payload_def newline_char)
qed

lemma parse_param_error: "parse_param extract val is = Inl e \<Longrightarrow> e = Out_of_range"
  by (auto simp: parse_param_def split: prod.splits sum.splits dest: strval_of_error)

lemma parse_param_exhausted:
  "stream_lines is = 0 \<Longrightarrow> parse_param extract val is = Inl Out_of_range"
proof -
  assume "stream_lines is = 0"
  then have "is = None \<or> is = Some []"
    by (auto simp: stream_lines_def dest: num_lines_0 split: option.splits)
  then have "fst (getline is) = []" by (auto simp: getline_None getline_empty)
  moreover have "strval_of [] = Inl Out_of_range"
    by (rule strval_of_blank) simp_all
  ultimately show ?thesis by (cases "getline is") (simp add: parse_param_def)
qed

lemma parse_param_Inr:
  assumes "parse_param extract val is = Inr (v, is')"
  shows "0 < stream_lines is \<and> stream_lines is' = stream_lines is - 1 \<and> is' = snd (getline is)"
proof -
  have "0 < stream_lines is"
    using assms parse_param_exhausted[of "is" "extract" val] by fastforce
  moreover have "is' = snd (getline is)"
    using assms by (auto simp: parse_param_def split: prod.splits sum.splits)
  ultimately show ?thesis by (simp add: getline_stream_lines)
qed

lemma parse_param_Inr_lines:
  "parse_param ex val is = Inr (v, is') \<Longrightarrow> stream_lines is = Suc (stream_lines is')"
proof -
  assume "parse_param ex val is = Inr (v, is')"
  from parse_param_Inr[OF this]
  have "0 < stream_lines is" and "stream_lines is' = stream_lines is - 1" by blast+
  then show ?thesis by arith
qed

lemma parse_param_line:
  assumes "newline \<notin> set l" and "strval_of l = Inr p"
  shows "parse_param ex val (Some (l @ newline # rest)) = Inr (stream_extract ex val p, Some rest)"
  using assms by (simp add: parse_param_def getline_line)

lemma parse_param_last:
  assumes "newline \<notin> set l" and "tail = [] \<or> hd tail = newline" and "strval_of l = Inr p"
  shows "parse_param ex val (Some (l @ tail)) =
           Inr (stream_extract ex val p, snd (getline (Some (l @ tail))))"
proof -
  have "fst (getline (Some (l @ tail))) = l" using assms(1,2) by (rule getline_last)
  then show ?thesis
    using assms(3) by (cases "getline (Some (l @ tail))") (simp add: parse_param_def)
qed

section \<open>Reading the grid file\<close>

lemma bind_Inr_iff:
  "((case r of Inl e \<Rightarrow> Inl e | Inr (v, is') \<Rightarrow> K v is') = Inr x)
     = (\<exists>v is'. r = Inr (v, is') \<and> K v is' = Inr x)"
  by (cases r) auto

lemma bind_Inl_iff:
  "((case r of Inl e \<Rightarrow> Inl e | Inr (v, is') \<Rightarrow> K v is') = Inl x)
     = (r = Inl x \<or> (\<exists>v is'. r = Inr (v, is') \<and> K v is' = Inl x))"
  by (cases r) auto

lemma read_grid_info_Inr_lines:
  assumes "read_grid_info env fs f = Inr info"
  shows "11 \<le> stream_lines (fs f)"
proof -
  obtain dummy is1 where g: "getline (fs f) = (dummy, is1)" by (cases "getline (fs f)")
  then have is1: "stream_lines is1 = stream_lines (fs f) - 1"
    using getline_stream_lines[of "fs f"] by simp
  from assms have "10 \<le> stream_lines is1"
    apply (simp add: read_grid_info_def g bind_Inr_iff)
    apply clarify
    apply (drule parse_param_Inr_lines)+
    apply (thin_tac "info = _")
    apply linarith
    done
  with is1 show ?thesis by simp
qed

lemma read_grid_info_error: "read_grid_info env fs f = Inl e \<Longrightarrow> e = Out_of_range"
  by (cases e) simp

lemma read_grid_info_short:
  assumes "stream_lines (fs f) < 11"
  shows "read_grid_info env fs f = Inl Out_of_range"
proof (cases "read_grid_info env fs f")
  case (Inl e)
  then show ?thesis using read_grid_info_error by blast
next
  case (Inr info)
  from read_grid_info_Inr_lines[OF this] assms show ?thesis by simp
qed

lemma read_grid_info_cong:
  "extract_int env = extract_int env' \<Longrightarrow> extract_double env = extract_double env' \<Longrightarrow>
   uninit_int env = uninit_int env' \<Longrightarrow> uninit_double env = uninit_double env' \<Longrightarrow>
   read_grid_info env fs f = read_grid_info env' fs f"
  by (simp add: read_grid_info_def cong del: sum.case_cong_weak prod.case_cong_weak)

lemma list_of_ten:
  "length xs = 10 \<Longrightarrow>
   xs = [xs ! 0, xs ! 1, xs ! 2, xs ! 3, xs ! 4, xs ! 5, xs ! 6, xs ! 7, xs ! 8, xs ! 9]"
proof -
  assume "length xs = 10"
  then obtain x0 x1 x2 x3 x4 x5 x6 x7 x8 x9 where "xs = [x0, x1, x2, x3, x4, x5, x6, x7, x8, x9]"
    by (auto simp: numeral_eq_Suc length_Suc_conv)
  then show ?thesis by simp
qed

lemma read_grid_info_ten_lines:
  assumes "fs f = Some (unlines (header # take 9 ls) @ ls ! 9 @ tail)"
    and "tail = [] \<or> hd tail = newline"
    and "newline \<notin> set header"
    and "length ls = 10"
    and "\<And>k. k < 10 \<Longrightarrow> newline \<notin> set (ls ! k) \<and> strval_of (ls ! k) = Inr (p k)"
  shows "read_grid_info env fs f =
     Inr \<lparr>num_electrodes = stream_extract (extract_int env) (uninit_int env 1) (p 0),
          dimx = stream_extract (extract_int env) (uninit_int env 2) (p 1),
          dimy = stream_extract (extract_int env) (uninit_int env 3) (p 2),
          dimz = stream_extract (extract_int env) (uninit_int env 4) (p 3),
          startx = stream_extract (extract_double env) (uninit_double env 5) (p 4),
          endx = stream_extract (extract_double env) (uninit_double env 8) (p 7),
          starty = stream_extract (extract_double env) (uninit_double env 6) (p 5),
          endy = stream_extract (extract_double env) (uninit_double env 9) (p 8),
          startz = stream_extract (extract_double env) (uninit_double env 7) (p 6),
          endz = stream_extract (extract_double env) (uninit_double env 10) (p 9)\<rparr>"
proof -
  define a where "a k = ls ! k" for k
  have ls: "ls = [a 0, a 1, a 2, a 3, a 4, a 5, a 6, a 7, a 8, a 9]"
    unfolding a_def using assms(4) by (rule list_of_ten)
  have q: "parse_param ex val (Some (a k @ newline # more)) =
      Inr (stream_extract ex val (p k), Some more)" if "k < 10" for k ex val more
    using assms(5)[OF that] unfolding a_def by (simp add: parse_param_line)
  have r: "parse_param ex val (Some (a 9 @ tail)) =
      Inr (stream_extract ex val (p 9), snd (getline (Some (a 9 @ tail))))" for ex val
    using assms(5)[of 9] assms(2) unfolding a_def by (simp add: parse_param_last)
  have "take 9 ls = [a 0, a 1, a 2, a 3, a 4, a 5, a 6, a 7, a 8]"
    by (subst ls) simp
  then have content: "fs f = Some (header @ newline #
      a 0 @ newline # a 1 @ newline # a 2 @ newline # a 3 @ newline # a 4 @ newline #
      a 5 @ newline # a 6 @ newline # a 7 @ newline # a 8 @ newline # a 9 @ tail)"
    unfolding assms(1) a_def by (simp add: unlines_def)
  show ?thesis
    unfolding read_grid_info_def content
    by (simp add: getline_line[OF assms(3)] q r)
qed


lemma read_grid_info_value_lines:
  assumes "fs f =
      Some (unlines (header # map (\<lambda>lp. value_line (fst lp) (snd lp)) (take 9 items)) @
            value_line (fst (items ! 9)) (snd (items ! 9)) @ tail)"
    and "tail = [] \<or> hd tail = newline"
    and "newline \<notin> set header"
    and "length items = 10"
    and "list_all (\<lambda>lp. wf_label (fst lp) \<and> wf_payload (snd lp) \<and>
           length (value_line (fst lp) (snd lp)) < 2 ^ 64 - 1) items"
  shows "read_grid_info env fs f =
     Inr \<lparr>num_electrodes = stream_extract (extract_int env) (uninit_int env 1) (snd (items ! 0)),
          dimx = stream_extract (extract_int env) (uninit_int env 2) (snd (items ! 1)),
          dimy = stream_extract (extract_int env) (uninit_int env 3) (snd (items ! 2)),
          dimz = stream_extract (extract_int env) (uninit_int env 4) (snd (items ! 3)),
          startx = stream_extract (extract_double env) (uninit_double env 5) (snd (items ! 4)),
          endx = stream_extract (extract_double env) (uninit_double env 8) (snd (items ! 7)),
          starty = stream_extract (extract_double env) (uninit_double env 6) (snd (items ! 5)),
          endy = stream_extract (extract_double env) (uninit_double env 9) (snd (items ! 8)),
          startz = stream_extract (extract_double env) (uninit_double env 7) (snd (items ! 6)),
          endz = stream_extract (extract_double env) (uninit_double env 10) (snd (items ! 9))\<rparr>"
proof -
  let ?ls = "map (\<lambda>lp. value_line (fst lp) (snd lp)) items"
  have l: "length ?ls = 10" using assms(4) by simp
  have c: "fs f = Some (unlines (header # take 9 ?ls) @ ?ls ! 9 @ tail)"
    using assms(1,4) by (simp add: take_map)
  have k: "newline \<notin> set (?ls ! k) \<and> strval_of (?ls ! k) = Inr (snd (items ! k))"
    if "k < 10" for k
  proof -
    have w: "wf_label (fst (items ! k))" "wf_payload (snd (items ! k))"
      "length (value_line (fst (items ! k)) (snd (items ! k))) < 2 ^ 64 - 1"
      using assms(4,5) that by (simp_all add: list_all_length)
    have "newline \<notin> set (value_line (fst (items ! k)) (snd (items ! k)))"
      using w by (simp add: wf_label_def wf_payload_def value_line_def newline_char)
    moreover have "strval_of (value_line (fst (items ! k)) (snd (items ! k))) =
        Inr (snd (items ! k))"
      using w by (rule strval_of_value_line)
    ultimately show ?thesis using assms(4) that by simp
  qed
  show ?thesis
    using c assms(2,3) l k by (rule read_grid_info_ten_lines) simp
qed

section \<open>Loops as folds\<close>

lemma sint_less_Suc:
  fixes i n :: int32
  assumes "i <s n"
  shows "sint (i + 1) = sint i + 1"
proof -
  have less: "sint i < sint n"
    using assms by (simp add: word_sless_alt)
  have "sint n < 2 ^ 31" "- (2 ^ 31) \<le> sint i"
    using sint_lt [of n] sint_ge [of i] by simp_all
  hence "signed_take_bit 31 (sint i + 1) = sint i + 1"
    using less by (intro signed_take_bit_int_eq_self) simp_all
  thus ?thesis
    by (simp add: sint_word_ariths)
qed

lemma sint_of_int32:
  assumes "- 2147483648 \<le> z" and "z \<le> 2147483647"
  shows "sint (word_of_int z :: int32) = z"
proof -
  have "sint (word_of_int z :: int32) = signed_take_bit 31 z"
    by (simp add: sint_sbintrunc')
  also have "\<dots> = z"
    using assms by (intro signed_take_bit_int_eq_self) simp_all
  finally show ?thesis .
qed

lemma sint_add32:
  fixes a b :: int32
  assumes "- 2147483648 \<le> sint a + sint b" and "sint a + sint b \<le> 2147483647"
  shows "sint (a + b) = sint a + sint b"
proof -
  have "sint (a + b) = signed_take_bit 31 (sint a + sint b)"
    by (simp add: sint_word_ariths)
  also have "\<dots> = sint a + sint b"
    using assms by (intro signed_take_bit_int_eq_self) simp_all
  finally show ?thesis .
qed

lemma sint_total32:
  fixes n :: int32
  assumes "0 \<le> sint n" and "sint n \<le> 1073741822"
  shows "sint (2 * n + 2) = 2 * sint n + 2"
proof -
  have "sint (n + n) = sint n + sint n"
    using assms by (intro sint_add32) simp_all
  then have d: "sint (2 * n) = 2 * sint n" by simp
  have "sint (2 * n + 2) = sint (2 * n) + sint (2 :: int32)"
    using assms by (intro sint_add32) (simp_all add: d)
  then show ?thesis by (simp add: d)
qed

lemma sint_range32:
  fixes n :: int32
  shows "map sint (range32 0 n) = [0..sint n - 1]"
proof -
  have "sint (word_of_int z :: int32) = z" if "z \<in> set [0..sint n - 1]" for z
  proof -
    have "sint n < 2 ^ 31" using sint_lt [of n] by simp
    with that show ?thesis by (intro sint_of_int32) simp_all
  qed
  then have "map (\<lambda>z. sint (word_of_int z :: int32)) [0..sint n - 1] = [0..sint n - 1]"
    by (intro map_idI) simp
  then show ?thesis by (simp add: range32_def comp_def)
qed

lemma range32_Cons: "i <s n \<Longrightarrow> range32 i n = i # range32 (i + 1) n"
proof -
  assume l: "i <s n"
  then have "sint i < sint n" by (simp add: word_sless_alt)
  then have "[sint i..sint n - 1] = sint i # [sint i + 1..sint n - 1]"
    by (simp add: upto_rec1)
  then show ?thesis by (simp add: range32_def sint_less_Suc[OF l])
qed

lemma range32_Nil: "\<not> i <s n \<Longrightarrow> range32 i n = []"
  by (simp add: range32_def word_sless_alt)

lemma for_loop_fold: "for_loop i n body s = fold body (range32 i n) s"
proof (induction i n body s rule: for_loop.induct)
  case (1 i n body s)
  show ?case
  proof (cases "i <s n")
    case True
    with 1 show ?thesis by (simp add: for_loop.simps[of i] range32_Cons)
  next
    case False
    then show ?thesis by (simp add: for_loop.simps[of i] range32_Nil)
  qed
qed

lemma for_loop_fold_fun: "for_loop i n body = fold body (range32 i n)"
  by (rule ext) (rule for_loop_fold)

lemma fold_call: "fold (\<lambda>k. call (g k)) ks st = st\<lparr>calls := calls st @ map g ks\<rparr>"
  by (induction ks arbitrary: st) (simp_all add: call_def)

lemma insert_electrodes_calls:
  "insert_electrodes n st =
     st\<lparr>calls := calls st @ map (\<lambda>k. Insert (show_int k)) (range32 0 n)\<rparr>"
  by (simp add: insert_electrodes_def for_loop_fold fold_call)

lemma set_voltages_calls:
  "set_voltages electrodes n st =
     st\<lparr>calls := calls st @
       map (\<lambda>k. Set_voltage (show_int k) (if k \<in> electrodes then 1 else 0)) (range32 0 n)\<rparr>"
  by (simp add: set_voltages_def for_loop_fold fold_call)

lemma fold_concat_map: "fold f (concat (map g xs)) = fold (\<lambda>x. fold f (g x)) xs"
proof
  fix s show "fold f (concat (map g xs)) s = fold (\<lambda>x. fold f (g x)) xs s"
    by (induction xs arbitrary: s) simp_all
qed

lemma fold_map_fun: "fold f (map h xs) = fold (\<lambda>x. f (h x)) xs"
proof
  fix s show "fold f (map h xs) s = fold (\<lambda>x. f (h x)) xs s"
    by (induction xs arbitrary: s) simp_all
qed

lemma sample_grid_fold:
  "sample_grid env info datafile st = fold (write_at env datafile) (grid_points env info) st"
  by (simp add: sample_grid_def for_loop_fold_fun grid_points_def grid_order_def fold_concat_map
      fold_map_fun write_at_def grid_point_def axis_point_def)

lemma write_points:
  "files st outfile = Some w \<Longrightarrow>
   fold (write_at env (Some outfile)) ps st =
     st\<lparr>calls := calls st @ map calc_at ps,
        files := (files st)(outfile \<mapsto> w @ potentials env (calls st) ps)\<rparr>"
proof (induction ps arbitrary: st w)
  case Nil
  then show ?case by (simp add: fun_upd_idem)
next
  case (Cons p ps)
  obtain x y z where p: "p = (x, y, z)" by (cases p)
  define st1 where "st1 = write_point env (Some outfile) x y z st"
  have f1: "files st1 outfile = Some (w @ [calc_slow env (calls st) x y z])"
    using Cons.prems by (simp add: st1_def write_point_def Let_def)
  have c1: "calls st1 = calls st @ [Calc_slow x y z]"
    by (simp add: st1_def write_point_def Let_def)
  have "fold (write_at env (Some outfile)) (p # ps) st = fold (write_at env (Some outfile)) ps st1"
    by (simp add: p write_at_def st1_def)
  also have "\<dots> = st1\<lparr>calls := calls st1 @ map calc_at ps,
        files := (files st1)(outfile \<mapsto> (w @ [calc_slow env (calls st) x y z]) @ potentials env (calls st1) ps)\<rparr>"
    by (rule Cons.IH[OF f1])
  also have "\<dots> = st\<lparr>calls := calls st @ map calc_at (p # ps),
        files := (files st)(outfile \<mapsto> w @ potentials env (calls st) (p # ps))\<rparr>"
    using Cons.prems by (simp add: c1 p calc_at_def) (simp add: st1_def write_point_def Let_def)
  finally show ?case .
qed

lemma lost_points:
  "fold (write_at env None) ps st = st\<lparr>calls := calls st @ map calc_at ps\<rparr>"
  by (induction ps arbitrary: st)
    (simp_all add: write_at_def write_point_def calc_at_def Let_def split: prod.splits)

section \<open>What one call of the sampling pass does\<close>

lemma compute_potential_import_failed:
  assumes "\<not> import_ok env (calls st @ [Mkdir ''gen.cache'']) ''layout.dxf''"
  shows "compute_potential env electrodes info outfile st = st\<lparr>calls := calls st @ import_calls\<rparr>"
  using assms by (simp add: compute_potential_def call_def import_calls_def)

lemma compute_potential_priming:
  assumes "import_ok env (calls st @ [Mkdir ''gen.cache'']) ''layout.dxf''"
  shows "compute_potential env {} info outfile st =
           st\<lparr>calls := calls st @ import_calls @ solve_calls info\<rparr>"
  using assms
  by (simp add: compute_potential_def call_def import_calls_def solve_calls_def
      insert_electrodes_calls)

lemma compute_potential_sampling:
  assumes "import_ok env (calls st @ [Mkdir ''gen.cache'']) ''layout.dxf''"
    and "electrodes \<noteq> {}"
  shows "compute_potential env electrodes info (Some outfile) st =
           st\<lparr>calls := calls st @ import_calls @ solve_calls info @
                  voltage_calls electrodes info @ map calc_at (grid_points env info),
                files := (files st)(outfile \<mapsto>
                  potentials env
                    (calls st @ import_calls @ solve_calls info @ voltage_calls electrodes info)
                    (grid_points env info))\<rparr>"
proof -
  define st11 where "st11 = st\<lparr>calls := calls st @ import_calls @ solve_calls info @
      voltage_calls electrodes info, files := (files st)(outfile \<mapsto> [])\<rparr>"
  have "compute_potential env electrodes info (Some outfile) st =
          sample_grid env info (Some outfile) st11"
    using assms
    by (simp add: compute_potential_def call_def import_calls_def solve_calls_def
        voltage_calls_def insert_electrodes_calls set_voltages_calls st11_def Let_def)
  moreover have "files st11 outfile = Some []" by (simp add: st11_def)
  ultimately show ?thesis
    by (simp add: sample_grid_fold write_points) (simp add: st11_def)
qed

lemma compute_potential_null_outfile:
  assumes "import_ok env (calls st @ [Mkdir ''gen.cache'']) ''layout.dxf''"
    and "electrodes \<noteq> {}"
  shows "compute_potential env electrodes info None st =
           st\<lparr>calls := calls st @ import_calls @ solve_calls info @
                  voltage_calls electrodes info @ map calc_at (grid_points env info)\<rparr>"
  using assms
  by (simp add: compute_potential_def call_def import_calls_def solve_calls_def
      voltage_calls_def insert_electrodes_calls set_voltages_calls sample_grid_fold lost_points
      Let_def)

lemma compute_potential_other_files:
  assumes "name \<noteq> outfile"
  shows "files (compute_potential env electrodes info (Some outfile) st) name = files st name"
proof (cases "import_ok env (calls st @ [Mkdir ''gen.cache'']) ''layout.dxf''")
  case False
  from compute_potential_import_failed[OF this] show ?thesis by simp
next
  case ok: True
  show ?thesis
  proof (cases "electrodes = {}")
    case True
    with compute_potential_priming[OF ok] show ?thesis by simp
  next
    case False
    from compute_potential_sampling[OF ok this] assms show ?thesis by simp
  qed
qed

lemma sampling_repeats_priming_calls:
  assumes "import_ok env (calls st @ [Mkdir ''gen.cache'']) ''layout.dxf''"
    and "electrodes \<noteq> {}"
  shows "calls (compute_potential env electrodes info (Some outfile) st) =
           calls (compute_potential env {} info None st) @
           voltage_calls electrodes info @ map calc_at (grid_points env info)"
  by (simp add: compute_potential_priming[OF assms(1)] compute_potential_sampling[OF assms])

lemma length_potentials: "length (potentials env h ps) = length ps"
  by (induction ps arbitrary: h) simp_all

lemma potentials_nth:
  "n < length ps \<Longrightarrow>
   potentials env h ps ! n =
     (case ps ! n of (x, y, z) \<Rightarrow> calc_slow env (h @ map calc_at (take n ps)) x y z)"
proof (induction ps arbitrary: h n)
  case Nil
  then show ?case by simp
next
  case (Cons p ps)
  show ?case
  proof (cases n)
    case 0
    then show ?thesis by simp
  next
    case (Suc m)
    with Cons.prems have "m < length ps" by simp
    from Cons.IH[OF this, of "h @ [calc_at p]"] Suc show ?thesis by simp
  qed
qed

lemma potentials_pure:
  "(\<And>h x y z. calc_slow env h x y z = phi x y z) \<Longrightarrow>
   potentials env h ps = map (\<lambda>p. case p of (x, y, z) \<Rightarrow> phi x y z) ps"
  by (induction ps arbitrary: h) (simp_all split: prod.splits)

section \<open>The order of the grid\<close>

lemma length_concat_map:
  "(\<And>x. x \<in> set xs \<Longrightarrow> length (g x) = m) \<Longrightarrow> length (concat (map g xs)) = length xs * m"
  by (induction xs) simp_all

lemma concat_map_nth:
  "(\<And>x. x \<in> set xs \<Longrightarrow> length (g x) = m) \<Longrightarrow> a < length xs \<Longrightarrow> b < m \<Longrightarrow>
   concat (map g xs) ! (a * m + b) = g (xs ! a) ! b"
proof (induction xs arbitrary: a)
  case Nil
  then show ?case by simp
next
  case (Cons x xs)
  have lx: "length (g x) = m" using Cons.prems(1) by simp
  show ?case
  proof (cases a)
    case 0
    with lx Cons.prems(3) show ?thesis by (simp add: nth_append)
  next
    case (Suc a')
    with Cons.prems have "a' < length xs" by simp
    with Cons.IH[of a'] Cons.prems have "concat (map g xs) ! (a' * m + b) = g (xs ! a') ! b"
      by simp
    with Suc lx show ?thesis by (simp add: nth_append)
  qed
qed

lemma length_range32: "length (range32 0 n) = nat (sint n)"
  by (simp add: range32_def)

lemma nth_range32: "k < nat (sint n) \<Longrightarrow> range32 0 n ! k = of_nat k"
  by (simp add: range32_def nth_upto)

lemma length_grid_order:
  "length (grid_order info) =
     nat (sint (dimx info)) * nat (sint (dimy info)) * nat (sint (dimz info))"
proof -
  have inner: "\<And>i. length (concat (map (\<lambda>j. map (\<lambda>k. (i, j, k)) (range32 0 (dimz info)))
      (range32 0 (dimy info)))) = nat (sint (dimy info)) * nat (sint (dimz info))"
    by (subst length_concat_map[where m = "nat (sint (dimz info))"])
       (simp_all add: length_range32)
  show ?thesis unfolding grid_order_def
    by (subst length_concat_map[where m = "nat (sint (dimy info)) * nat (sint (dimz info))"])
       (simp_all add: inner length_range32)
qed

lemma grid_order_nth:
  assumes "i < nat (sint (dimx info))" and "j < nat (sint (dimy info))"
    and "k < nat (sint (dimz info))"
  shows "grid_order info ! ((i * nat (sint (dimy info)) + j) * nat (sint (dimz info)) + k) =
           (of_nat i, of_nat j, of_nat k)"
proof -
  let ?ny = "nat (sint (dimy info))" and ?nz = "nat (sint (dimz info))"
  let ?row = "\<lambda>i. concat (map (\<lambda>j. map (\<lambda>k. (i, j, k)) (range32 0 (dimz info)))
      (range32 0 (dimy info)))"
  have inner_len: "\<And>i. length (?row i) = ?ny * ?nz"
    by (subst length_concat_map[where m = ?nz]) (simp_all add: length_range32)
  have jk: "j * ?nz + k < ?ny * ?nz"
  proof -
    have "j * ?nz + k < j * ?nz + ?nz" using assms(3) by simp
    also have "\<dots> = Suc j * ?nz" by simp
    also have "\<dots> \<le> ?ny * ?nz" using assms(2) by (intro mult_le_mono1) simp
    finally show ?thesis .
  qed
  have "grid_order info ! (i * (?ny * ?nz) + (j * ?nz + k)) =
      ?row (range32 0 (dimx info) ! i) ! (j * ?nz + k)"
    unfolding grid_order_def
    by (rule concat_map_nth) (use assms(1) inner_len jk in \<open>simp_all add: length_range32\<close>)
  then have "grid_order info ! ((i * ?ny + j) * ?nz + k) =
      ?row (range32 0 (dimx info) ! i) ! (j * ?nz + k)"
    by (simp add: algebra_simps)
  also have "\<dots> = ?row (of_nat i) ! (j * ?nz + k)" using assms(1) by (simp add: nth_range32)
  also have "\<dots> = map (\<lambda>k. (of_nat i, range32 0 (dimy info) ! j, k)) (range32 0 (dimz info)) ! k"
    using assms(2,3) by (subst concat_map_nth[where m = ?nz]) (simp_all add: length_range32)
  also have "\<dots> = (of_nat i, of_nat j, of_nat k)"
    using assms(2,3) by (simp add: nth_range32 length_range32)
  finally show ?thesis .
qed

lemma nat_mult3: "0 \<le> a \<Longrightarrow> 0 \<le> b \<Longrightarrow> 0 \<le> c \<Longrightarrow> nat a * nat b * nat c = nat (a * b * c)"
  by (simp add: nat_mult_distrib)

lemma grid_index:
  assumes "0 \<le> i" "i < sint (dimx info)" "0 \<le> j" "j < sint (dimy info)"
    "0 \<le> k" "k < sint (dimz info)"
  shows "nat ((i * sint (dimy info) + j) * sint (dimz info) + k) < length (grid_order info)"
    and "grid_order info ! nat ((i * sint (dimy info) + j) * sint (dimz info) + k) =
           (word_of_int i, word_of_int j, word_of_int k)"
proof -
  let ?nx = "nat (sint (dimx info))" and ?ny = "nat (sint (dimy info))"
    and ?nz = "nat (sint (dimz info))"
  have n: "nat ((i * sint (dimy info) + j) * sint (dimz info) + k) =
      (nat i * ?ny + nat j) * ?nz + nat k"
    using assms by (simp add: nat_add_distrib nat_mult_distrib)
  have lt: "nat i < ?nx" "nat j < ?ny" "nat k < ?nz"
    using assms by simp_all
  have w: "(of_nat (nat i) :: int32) = word_of_int i" "(of_nat (nat j) :: int32) = word_of_int j"
    "(of_nat (nat k) :: int32) = word_of_int k"
    using assms(1,3,5) by simp_all
  from grid_order_nth[OF lt]
  show "grid_order info ! nat ((i * sint (dimy info) + j) * sint (dimz info) + k) =
      (word_of_int i, word_of_int j, word_of_int k)"
    by (simp only: n w)
  have le: "Suc (nat i) \<le> ?nx" "Suc (nat j) \<le> ?ny"
    using assms by linarith+
  have "(nat i * ?ny + nat j) * ?nz + nat k < (nat i * ?ny + nat j) * ?nz + ?nz"
    using lt(3) by (rule add_strict_left_mono)
  also have "\<dots> = Suc (nat i * ?ny + nat j) * ?nz" by simp
  also have "\<dots> \<le> (nat i * ?ny + ?ny) * ?nz"
    using le(2) by (intro mult_le_mono1) linarith
  also have "\<dots> = Suc (nat i) * (?ny * ?nz)" by (simp add: algebra_simps)
  also have "\<dots> \<le> ?nx * (?ny * ?nz)"
    using le(1) by (rule mult_le_mono1)
  finally show "nat ((i * sint (dimy info) + j) * sint (dimz info) + k) < length (grid_order info)"
    by (simp add: n length_grid_order mult.assoc)
qed

lemma grid_points_cong:
  "dbl env = dbl env' \<Longrightarrow> dadd env = dadd env' \<Longrightarrow> dsub env = dsub env' \<Longrightarrow>
   dmul env = dmul env' \<Longrightarrow> ddiv env = ddiv env' \<Longrightarrow>
   grid_points env info = grid_points env' info"
  by (simp add: grid_points_def grid_point_def axis_point_def)

section \<open>Decimal names\<close>

lemma digit_cases:
  "d < 10 \<Longrightarrow> d = 0 \<or> d = 1 \<or> d = 2 \<or> d = 3 \<or> d = 4 \<or> d = 5 \<or> d = 6 \<or> d = 7 \<or> d = 8 \<or> d = (9::nat)"
  by arith

lemma digit_val_digit_char: "d < 10 \<Longrightarrow> digit_val (digit_char d) = d"
  by (drule digit_cases) (auto simp: digit_val_def digit_char_def)

lemma digit_char_inj: "a < 10 \<Longrightarrow> b < 10 \<Longrightarrow> digit_char a = digit_char b \<Longrightarrow> a = b"
  by (metis digit_val_digit_char)

lemma digit_char_isdigit: "d < 10 \<Longrightarrow> isdigit (digit_char d)"
  by (drule digit_cases) (auto simp: isdigit_def digit_char_def)

lemma dec_nat_not_Nil: "dec_nat n \<noteq> []"
  by (subst dec_nat.simps) simp

lemma dec_nat_not_Nil': "[] \<noteq> dec_nat n"
  using dec_nat_not_Nil[of n] by (rule not_sym)

lemma dec_nat_isdigit: "c \<in> set (dec_nat n) \<Longrightarrow> isdigit c"
proof (induction n rule: dec_nat.induct)
  case (1 n)
  show ?case
  proof (cases "n < 10")
    case True
    with "1.prems" show ?thesis by (simp add: dec_nat.simps[of n] digit_char_isdigit)
  next
    case False
    with "1.prems" have "c \<in> set (dec_nat (n div 10)) \<or> c = digit_char (n mod 10)"
      by (auto simp: dec_nat.simps[of n])
    with False "1.IH" show ?thesis by (auto simp: digit_char_isdigit)
  qed
qed

lemma dec_nat_inj: "dec_nat n = dec_nat m \<Longrightarrow> n = m"
proof (induction n arbitrary: m rule: dec_nat.induct)
  case (1 n)
  show ?case
  proof (cases "n < 10")
    case n: True
    show ?thesis
    proof (cases "m < 10")
      case True
      with n "1.prems" show ?thesis
        by (simp add: dec_nat.simps[of n] dec_nat.simps[of m] digit_char_inj)
    next
      case False
      with n "1.prems" show ?thesis
        by (simp add: dec_nat.simps[of n] dec_nat.simps[of m] dec_nat_not_Nil dec_nat_not_Nil')
    qed
  next
    case n: False
    show ?thesis
    proof (cases "m < 10")
      case True
      with n "1.prems" show ?thesis
        by (simp add: dec_nat.simps[of n] dec_nat.simps[of m] dec_nat_not_Nil dec_nat_not_Nil')
    next
      case False
      with n "1.prems" have eq: "dec_nat (n div 10) = dec_nat (m div 10)"
        and d: "digit_char (n mod 10) = digit_char (m mod 10)"
        by (simp_all add: dec_nat.simps[of n] dec_nat.simps[of m])
      from "1.IH"[OF n eq] have "n div 10 = m div 10" .
      moreover from d have "n mod 10 = m mod 10" by (simp add: digit_char_inj)
      ultimately show ?thesis by (metis div_mult_mod_eq)
    qed
  qed
qed

lemma show_int_inj: "show_int a = show_int b \<Longrightarrow> a = b"
proof -
  assume eq: "show_int a = show_int b"
  have minus: "\<not> isdigit CHR ''-''" by (simp add: isdigit_def)
  have hd: "\<And>n. hd (dec_nat n) \<noteq> CHR ''-''"
    using dec_nat_isdigit dec_nat_not_Nil minus by (metis hd_in_set)
  have neg: "\<And>w :: int32. w <s 0 \<longleftrightarrow> sint w < 0" by (simp add: word_sless_alt)
  have "sint a = sint b"
  proof (cases "sint a < 0")
    case a: True
    show ?thesis
    proof (cases "sint b < 0")
      case True
      with a eq have "dec_nat (nat (- sint a)) = dec_nat (nat (- sint b))"
        by (simp add: show_int_def neg)
      then have "nat (- sint a) = nat (- sint b)" by (rule dec_nat_inj)
      with a True show ?thesis by simp
    next
      case False
      with a eq have "CHR ''-'' # dec_nat (nat (- sint a)) = dec_nat (nat (sint b))"
        by (simp add: show_int_def neg)
      then have "hd (dec_nat (nat (sint b))) = CHR ''-''" by (metis list.sel(1))
      with hd show ?thesis by blast
    qed
  next
    case a: False
    show ?thesis
    proof (cases "sint b < 0")
      case True
      with a eq have "dec_nat (nat (sint a)) = CHR ''-'' # dec_nat (nat (- sint b))"
        by (simp add: show_int_def neg)
      then have "hd (dec_nat (nat (sint a))) = CHR ''-''" by (metis list.sel(1))
      with hd show ?thesis by blast
    next
      case False
      with a eq have "dec_nat (nat (sint a)) = dec_nat (nat (sint b))"
        by (simp add: show_int_def neg)
      then have "nat (sint a) = nat (sint b)" by (rule dec_nat_inj)
      with a False show ?thesis by simp
    qed
  qed
  then show ?thesis by (rule signed_word_eqI)
qed

lemma field_file_inj: "field_file i = field_file j \<Longrightarrow> i = j"
  by (simp add: field_file_def show_int_inj)

lemma show_int_digits:
  "show_int 0 = ''0''" "show_int 1 = ''1''" "show_int 2 = ''2''" "show_int 3 = ''3''"
  "show_int 4 = ''4''" "show_int 5 = ''5''" "show_int 6 = ''6''" "show_int 7 = ''7''"
  "show_int 8 = ''8''" "show_int 9 = ''9''"
  by (simp_all add: show_int_def word_sless_alt dec_nat.simps digit_char_def)

lemma field_file_digits: "field_file 0 = ''field0.txt''" "field_file 1 = ''field1.txt''"
  by (simp_all add: field_file_def show_int_digits)

section \<open>The loop of the driver\<close>

lemma compute_loop_done: "\<not> i <s stop \<Longrightarrow> compute_loop env info i stop st = st"
  by (simp add: compute_loop_def for_loop.simps[of i])

lemma compute_loop_step:
  "i <s stop \<Longrightarrow>
   compute_loop env info i stop st =
     compute_loop env info (i + 1) stop
       (compute_potential env (activation_set info i) info (Some (field_file i)) st)"
  by (simp add: compute_loop_def for_loop.simps[of i])

lemma compute_loop_skip:
  assumes "\<not> import_ok env (calls st @ [Mkdir ''gen.cache'']) ''layout.dxf''" and "i <s stop"
  shows "compute_loop env info i stop st =
           compute_loop env info (i + 1) stop (st\<lparr>calls := calls st @ import_calls\<rparr>)"
  by (simp add: compute_loop_step[OF assms(2)] compute_potential_import_failed[OF assms(1)])

lemma compute_loop_earlier_files:
  "j <s i \<Longrightarrow> files (compute_loop env info i stop st) (field_file j) = files st (field_file j)"
proof (induction i stop "\<lambda>i. compute_potential env (activation_set info i) info (Some (field_file i))"
    st rule: for_loop.induct)
  case (1 i stop st)
  let ?st1 = "compute_potential env (activation_set info i) info (Some (field_file i)) st"
  show ?case
  proof (cases "i <s stop")
    case False
    then show ?thesis by (simp add: compute_loop_done)
  next
    case True
    from "1.prems" have "j \<noteq> i" by (auto simp: word_sless_alt)
    then have "field_file j \<noteq> field_file i" using field_file_inj by blast
    then have f: "files ?st1 (field_file j) = files st (field_file j)"
      by (rule compute_potential_other_files)
    have "sint (i + 1) = sint i + 1" using True by (rule sint_less_Suc)
    with "1.prems" have "j <s i + 1" by (simp add: word_sless_alt)
    with "1.hyps"[OF True] have "files (compute_loop env info (i + 1) stop ?st1) (field_file j) =
        files ?st1 (field_file j)"
      by (simp add: compute_loop_def)
    with f show ?thesis by (simp add: compute_loop_step[OF True])
  qed
qed

section \<open>The voltages set by a sequence of calls\<close>

lemma voltages_append: "voltages (xs @ ys) = voltages xs @ voltages ys"
  by (induction xs rule: voltages.induct) simp_all

lemma voltages_Insert: "voltages (map (\<lambda>k. Insert (g k)) ks) = []"
  by (induction ks) simp_all

lemma voltages_calc_at: "voltages (map calc_at ps) = []"
  by (induction ps) (simp_all add: calc_at_def split: prod.splits)

lemma voltages_Set_voltage:
  "voltages (map (\<lambda>k. Set_voltage (g k) (v k)) ks) = map (\<lambda>k. (g k, v k)) ks"
  by (induction ks) simp_all

lemma voltages_pass:
  "voltages (import_calls @ solve_calls info @ voltage_calls electrodes info @ map calc_at ps) =
     map (\<lambda>k. (show_int k, if k \<in> electrodes then 1 else 0))
       (range32 0 (2 * num_electrodes info + 2)) @
     [(''GROUND'', 0)]"
  by (simp add: voltages_append voltages_Insert voltages_calc_at voltages_Set_voltage
      import_calls_def solve_calls_def voltage_calls_def)

lemma Set_voltage_not_calc_at: "Set_voltage name v \<notin> set (map calc_at ps)"
  by (auto simp: calc_at_def split: prod.splits)

lemma Set_voltage_not_solve_calls: "Set_voltage name v \<notin> set (import_calls @ solve_calls info)"
  by (auto simp: import_calls_def solve_calls_def)

section \<open>The scenario of the specification, evaluated\<close>

lemmas strval_eval = strval_of_def find_char_def find_first_not_of_def find_last_not_of_def
  substr_def unat_npos npos_Suc blanks_def Let_def

lemmas extract_eval = stream_extract_def istream_int_def isspace_def isdigit_def digits_val_def
  digit_val_def Let_def

lemmas file_eval = read_grid_info_def getline_unlines newline_char parse_param_def strval_eval
  test_env_def extract_eval test_info_def

lemma read_test_grid: "read_grid_info test_env test_fs ''grid.txt'' = Inr test_info"
  by (simp add: read_grid_info_def test_fs_def test_grid_file_def getline_unlines newline_char
      parse_param_def strval_eval test_env_def extract_eval test_info_def)

lemma range32_0_2: "range32 0 2 = [0, 1]"
  by (simp add: range32_def upto_rec1)

lemma range32_0_8: "range32 0 8 = [0, 1, 2, 3, 4, 5, 6, 7]"
  by (simp add: range32_def upto_rec1)

lemma test_grid_points:
  "grid_points test_env test_info =
     [(0, 0, 0), (0, 0, 1), (0, 1, 0), (0, 1, 1), (1, 0, 0), (1, 0, 1), (1, 1, 0), (1, 1, 1)]"
  by (simp add: grid_points_def grid_order_def grid_point_def axis_point_def test_env_def
      test_info_def range32_0_2)

lemma test_potentials:
  "potentials test_env h (grid_points test_env test_info) = [0, 4, 2, 6, 1, 5, 3, 7]"
proof -
  have "\<And>h x y z. calc_slow test_env h x y z = x + 2 * y + 4 * z" by (simp add: test_env_def)
  from potentials_pure[of test_env "\<lambda>x y z. x + 2 * y + 4 * z", OF this]
  have "potentials test_env h (grid_points test_env test_info) =
      map (\<lambda>p. case p of (x, y, z) \<Rightarrow> x + 2 * y + 4 * z) (grid_points test_env test_info)" .
  then show ?thesis unfolding test_grid_points by simp
qed

lemma test_grid_points_late:
  "grid_points late_layout_env test_info = grid_points test_env test_info"
  by (rule grid_points_cong) (simp_all add: late_layout_env_def)

lemma test_potentials_late:
  "potentials late_layout_env h (grid_points test_env test_info) = [0, 4, 2, 6, 1, 5, 3, 7]"
proof -
  have "\<And>h x y z. calc_slow late_layout_env h x y z = x + 2 * y + 4 * z"
    by (simp add: late_layout_env_def test_env_def)
  from potentials_pure[of late_layout_env "\<lambda>x y z. x + 2 * y + 4 * z", OF this]
  have "potentials late_layout_env h (grid_points test_env test_info) =
      map (\<lambda>p. case p of (x, y, z) \<Rightarrow> x + 2 * y + 4 * z) (grid_points test_env test_info)" .
  then show ?thesis unfolding test_grid_points by simp
qed

section \<open>Properties of the loader\<close>

text \<open>
  C9. A line read by the loader that holds nothing but blanks makes \<^verbatim>\<open>parse_param\<close> throw:
  the trim bounds are searched in the whole line, the first is \<open>npos\<close>, and
  \<^verbatim>\<open>rhs.substr(begin, ...)\<close> is out of range. A stream with no line left gives such a line,
  the empty one, so a file of fewer than eleven lines (a missing file has none) makes the
  loader end with this exception and return no grid.
\<close>

theorem blank_line_out_of_range:
  "(set line \<subseteq> set blanks \<and> length line < 2 ^ 64 - 1 \<and> getline is = (line, is') \<longrightarrow>
      find_first_not_of line blanks = npos \<and> parse_param ex val is = Inl Out_of_range) \<and>
   (stream_lines is0 = 0 \<longrightarrow>
      getline is0 = ([], None) \<and> parse_param ex val is0 = Inl Out_of_range) \<and>
   (stream_lines (fs f) < 11 \<longrightarrow> read_grid_info env fs f = Inl Out_of_range)"
proof (intro conjI impI)
  assume a: "set line \<subseteq> set blanks \<and> length line < 2 ^ 64 - 1 \<and> getline is = (line, is')"
  then show "find_first_not_of line blanks = npos" by (simp add: find_first_not_of_blank)
  from a have "strval_of line = Inl Out_of_range" by (simp add: strval_of_blank)
  with a show "parse_param ex val is = Inl Out_of_range" by (simp add: parse_param_def)
next
  assume "stream_lines is0 = 0"
  then show "getline is0 = ([], None)" by (rule getline_exhausted)
next
  assume "stream_lines is0 = 0"
  then show "parse_param ex val is0 = Inl Out_of_range" by (rule parse_param_exhausted)
next
  assume "stream_lines (fs f) < 11"
  then show "read_grid_info env fs f = Inl Out_of_range" by (rule read_grid_info_short)
qed

theorem blank_line_out_of_range_witness:
  "set ''  '' \<subseteq> set blanks \<and> length ''  '' < (2::nat) ^ 64 - 1 \<and>
   getline (Some (unlines [''  '', ''dimx: 2''])) = (''  '', Some (unlines [''dimx: 2''])) \<and>
   find_first_not_of ''  '' blanks = npos \<and>
   parse_param (extract_int test_env) (uninit_int test_env 1)
     (Some (unlines [''  '', ''dimx: 2''])) = Inl Out_of_range \<and>
   stream_lines None = 0 \<and>
   getline None = ([], None) \<and>
   parse_param (extract_int test_env) (uninit_int test_env 1) None = Inl Out_of_range \<and>
   stream_lines (Some (unlines [''---'', ''num_electrodes: 3''])) < 11 \<and>
   read_grid_info test_env (\<lambda>path. Some (unlines [''---'', ''num_electrodes: 3''])) ''grid.txt''
     = Inl Out_of_range"
proof -
  have h1: "set ''  '' \<subseteq> set blanks \<and> length ''  '' < (2::nat) ^ 64 - 1 \<and>
      getline (Some (unlines [''  '', ''dimx: 2''])) = (''  '', Some (unlines [''dimx: 2'']))"
    by (simp add: blanks_def getline_unlines newline_char)
  have h2: "stream_lines None = 0" by (simp add: stream_lines_def)
  have h3: "stream_lines (Some (unlines [''---'', ''num_electrodes: 3''])) < 11"
    by (simp add: stream_lines_def num_lines_def unlines_def newline_char)
  from blank_line_out_of_range
    [of "''  ''" "Some (unlines [''  '', ''dimx: 2''])" "Some (unlines [''dimx: 2''])"
        "extract_int test_env" "uninit_int test_env 1" None
        "\<lambda>path. Some (unlines [''---'', ''num_electrodes: 3''])" "''grid.txt''"
        test_env] h1 h2 h3
  show ?thesis by blast
qed

text \<open>
  C8. The payload of a value line should be what follows the first colon, trimmed of
  blanks at both ends. The code takes the trim bounds from the whole line instead of from
  the text after the colon: a line indented by two blanks gives the empty payload, one
  indented by three throws, and a blank after the value is kept.
\<close>

theorem trim_bounds_taken_from_line:
  "strval_of ''  dimx: 5'' = Inr [] \<and> payload_spec ''  dimx: 5'' = ''5'' \<and>
   strval_of ''   dimx: 5'' = Inl Out_of_range \<and> payload_spec ''   dimx: 5'' = ''5'' \<and>
   strval_of ''dimx: 5 '' = Inr '' 5 '' \<and> payload_spec ''dimx: 5 '' = ''5''"
  by (simp add: strval_eval payload_spec_def trim_def)

text \<open>
  C5 (amended). The loader reads eleven lines: it drops the first and parses the ten that
  follow by position, never by label, in the order electrode count, dimx, dimy, dimz,
  startx, starty, startz, endx, endy, endz. For a file of a header line and ten well-formed
  value lines, the last of which need not end with a newline, each field of the grid is
  what the stream extraction makes of the text after the colon of its line: the number
  read from it or, if that text is empty or all white space, or no number is written,
  the uninitialised content of the variable. What follows the eleventh line is not looked
  at. A file of fewer than eleven lines gives no grid.
\<close>

theorem loader_round_trip:
  "(fs f =
      Some (unlines (header # map (\<lambda>lp. value_line (fst lp) (snd lp)) (take 9 items)) @
            value_line (fst (items ! 9)) (snd (items ! 9)) @ tail) \<and>
    (tail = [] \<or> hd tail = newline) \<and>
    newline \<notin> set header \<and>
    length items = 10 \<and>
    list_all (\<lambda>lp. wf_label (fst lp) \<and> wf_payload (snd lp) \<and>
       length (value_line (fst lp) (snd lp)) < 2 ^ 64 - 1) items \<longrightarrow>
    read_grid_info env fs f =
      Inr \<lparr>num_electrodes =
             stream_extract (extract_int env) (uninit_int env 1) (snd (items ! 0)),
           dimx = stream_extract (extract_int env) (uninit_int env 2) (snd (items ! 1)),
           dimy = stream_extract (extract_int env) (uninit_int env 3) (snd (items ! 2)),
           dimz = stream_extract (extract_int env) (uninit_int env 4) (snd (items ! 3)),
           startx = stream_extract (extract_double env) (uninit_double env 5) (snd (items ! 4)),
           endx = stream_extract (extract_double env) (uninit_double env 8) (snd (items ! 7)),
           starty = stream_extract (extract_double env) (uninit_double env 6) (snd (items ! 5)),
           endy = stream_extract (extract_double env) (uninit_double env 9) (snd (items ! 8)),
           startz = stream_extract (extract_double env) (uninit_double env 7) (snd (items ! 6)),
           endz = stream_extract (extract_double env) (uninit_double env 10) (snd (items ! 9))\<rparr>) \<and>
   (stream_lines (fs' f') < 11 \<longrightarrow> read_grid_info env fs' f' = Inl Out_of_range)"
  using read_grid_info_value_lines[of fs f header items tail env]
    read_grid_info_short[of fs' f' env]
  by blast

theorem loader_round_trip_witness:
  "(\<lambda>path. Some (unlines [''---'', ''num_electrodes: 3'', ''dimx: 2'', ''dimy: 2'', ''dimz: 2'',
       ''startx: 0'', ''starty: 0'', ''startz: 0'', ''endx: 1'', ''endy: 1''] @ ''endz: 1''))
     ''grid.txt'' =
     Some (unlines (''---'' # map (\<lambda>lp. value_line (fst lp) (snd lp)) (take 9 test_items)) @
           value_line (fst (test_items ! 9)) (snd (test_items ! 9)) @ []) \<and>
   newline \<notin> set ''---'' \<and>
   length test_items = 10 \<and>
   list_all (\<lambda>lp. wf_label (fst lp) \<and> wf_payload (snd lp) \<and>
      length (value_line (fst lp) (snd lp)) < 2 ^ 64 - 1) test_items \<and>
   read_grid_info test_env
     (\<lambda>path. Some (unlines [''---'', ''num_electrodes: 3'', ''dimx: 2'', ''dimy: 2'', ''dimz: 2'',
       ''startx: 0'', ''starty: 0'', ''startz: 0'', ''endx: 1'', ''endy: 1''] @ ''endz: 1''))
     ''grid.txt'' = Inr test_info \<and>
   stream_lines (Some (unlines [''---'', ''num_electrodes: 3''])) < 11 \<and>
   read_grid_info test_env (\<lambda>path. Some (unlines [''---'', ''num_electrodes: 3''])) ''grid.txt'' =
     Inl Out_of_range"
proof -
  define fs :: "string \<Rightarrow> string option" where
    "fs = (\<lambda>path. Some (unlines [''---'', ''num_electrodes: 3'', ''dimx: 2'', ''dimy: 2'',
       ''dimz: 2'', ''startx: 0'', ''starty: 0'', ''startz: 0'', ''endx: 1'', ''endy: 1''] @
       ''endz: 1''))"
  have h1: "fs ''grid.txt'' =
     Some (unlines (''---'' # map (\<lambda>lp. value_line (fst lp) (snd lp)) (take 9 test_items)) @
           value_line (fst (test_items ! 9)) (snd (test_items ! 9)) @ [])"
    by (simp add: fs_def test_items_def value_line_def)
  have h2: "newline \<notin> set ''---''" by (simp add: newline_char)
  have h3: "length test_items = 10" by (simp add: test_items_def)
  have h4: "list_all (\<lambda>lp. wf_label (fst lp) \<and> wf_payload (snd lp) \<and>
      length (value_line (fst lp) (snd lp)) < 2 ^ 64 - 1) test_items"
    by (simp add: test_items_def wf_label_def wf_payload_def value_line_def blanks_def newline_char)
  have h5: "stream_lines (Some (unlines [''---'', ''num_electrodes: 3''])) < 11"
    by (simp add: stream_lines_def num_lines_def unlines_def newline_char)
  note t = loader_round_trip
      [of fs "''grid.txt''" "''---''" test_items "[]" test_env
          "\<lambda>path. Some (unlines [''---'', ''num_electrodes: 3''])" "''grid.txt''"]
  from t h1 h2 h3 h4 have "read_grid_info test_env fs ''grid.txt'' =
      Inr \<lparr>num_electrodes =
             stream_extract (extract_int test_env) (uninit_int test_env 1) (snd (test_items ! 0)),
           dimx = stream_extract (extract_int test_env) (uninit_int test_env 2) (snd (test_items ! 1)),
           dimy = stream_extract (extract_int test_env) (uninit_int test_env 3) (snd (test_items ! 2)),
           dimz = stream_extract (extract_int test_env) (uninit_int test_env 4) (snd (test_items ! 3)),
           startx = stream_extract (extract_double test_env) (uninit_double test_env 5)
             (snd (test_items ! 4)),
           endx = stream_extract (extract_double test_env) (uninit_double test_env 8)
             (snd (test_items ! 7)),
           starty = stream_extract (extract_double test_env) (uninit_double test_env 6)
             (snd (test_items ! 5)),
           endy = stream_extract (extract_double test_env) (uninit_double test_env 9)
             (snd (test_items ! 8)),
           startz = stream_extract (extract_double test_env) (uninit_double test_env 7)
             (snd (test_items ! 6)),
           endz = stream_extract (extract_double test_env) (uninit_double test_env 10)
             (snd (test_items ! 9))\<rparr>"
    by blast
  then have r: "read_grid_info test_env fs ''grid.txt'' = Inr test_info"
    by (simp add: test_items_def test_env_def extract_eval test_info_def)
  from t h5 have s: "read_grid_info test_env
      (\<lambda>path. Some (unlines [''---'', ''num_electrodes: 3''])) ''grid.txt'' = Inl Out_of_range"
    by blast
  from h1 h2 h3 h4 r h5 s show ?thesis unfolding fs_def by (intro conjI)
qed

text \<open>
  The claim C5 as stated, ten lines read, fails: the scenario file cut after its tenth
  line is rejected, and with its eleventh line it loads.
\<close>

theorem eleventh_line_is_read_counterexample:
  "read_grid_info test_env
     (\<lambda>path. Some (unlines [''---'', ''num_electrodes: 3'', ''dimx: 2'', ''dimy: 2'', ''dimz: 2'',
        ''startx: 0'', ''starty: 0'', ''startz: 0'', ''endx: 1'', ''endy: 1'']))
     ''grid.txt'' = Inl Out_of_range \<and>
   read_grid_info test_env
     (\<lambda>path. Some (unlines [''---'', ''num_electrodes: 3'', ''dimx: 2'', ''dimy: 2'', ''dimz: 2'',
        ''startx: 0'', ''starty: 0'', ''startz: 0'', ''endx: 1'', ''endy: 1'', ''endz: 1'']))
     ''grid.txt'' = Inr test_info"
proof -
  have "stream_lines (Some (unlines [''---'', ''num_electrodes: 3'', ''dimx: 2'', ''dimy: 2'',
      ''dimz: 2'', ''startx: 0'', ''starty: 0'', ''startz: 0'', ''endx: 1'', ''endy: 1''])) < 11"
    by (simp add: stream_lines_def num_lines_def unlines_def newline_char)
  then have "read_grid_info test_env
     (\<lambda>path. Some (unlines [''---'', ''num_electrodes: 3'', ''dimx: 2'', ''dimy: 2'', ''dimz: 2'',
        ''startx: 0'', ''starty: 0'', ''startz: 0'', ''endx: 1'', ''endy: 1'']))
     ''grid.txt'' = Inl Out_of_range"
    by (rule read_grid_info_short)
  moreover have "read_grid_info test_env
     (\<lambda>path. Some (unlines [''---'', ''num_electrodes: 3'', ''dimx: 2'', ''dimy: 2'', ''dimz: 2'',
        ''startx: 0'', ''starty: 0'', ''startz: 0'', ''endx: 1'', ''endy: 1'', ''endz: 1'']))
     ''grid.txt'' = Inr test_info"
    by (simp add: file_eval)
  ultimately show ?thesis by (intro conjI)
qed




section \<open>Properties of the sampling pass\<close>

text \<open>
  C4 (amended). For a grid with at least two points on each axis, a sampling pass whose
  layout import succeeds writes to its output file one value per grid point,
  \<open>dimx * dimy * dimz\<close> in all, in the nested order X, Y, Z: line
  \<open>(i * dimy + j) * dimz + k\<close> holds the potential the solver gives at
  \<open>(startx + i * xstep, starty + j * ystep, startz + k * zstep)\<close>, each step being
  \<open>(end - start) / (dim - 1)\<close>, asked after the points before it. Every point is
  evaluated: the calls of the pass end with one evaluation per grid point. A pass whose
  layout import fails writes no file.
\<close>

theorem sampling_pass_output:
  assumes "2 \<le>s dimx info" and "2 \<le>s dimy info" and "2 \<le>s dimz info"
    and "import_ok env (calls st @ [Mkdir ''gen.cache'']) ''layout.dxf''"
    and "electrodes \<noteq> {}"
  shows
    "(let h = calls st @ import_calls @ solve_calls info @ voltage_calls electrodes info;
          pts = grid_points env info;
          phis = potentials env h pts
      in compute_potential env electrodes info (Some outfile) st =
           st\<lparr>calls := h @ map calc_at pts, files := (files st)(outfile \<mapsto> phis)\<rparr> \<and>
         length phis = nat (sint (dimx info) * sint (dimy info) * sint (dimz info)) \<and>
         (\<forall>i j k. 0 \<le> i \<and> i < sint (dimx info) \<and> 0 \<le> j \<and> j < sint (dimy info) \<and>
                  0 \<le> k \<and> k < sint (dimz info) \<longrightarrow>
            (let n = nat ((i * sint (dimy info) + j) * sint (dimz info) + k);
                 p = grid_point env info (word_of_int i, word_of_int j, word_of_int k)
             in pts ! n = p \<and>
                phis ! n =
                  (case p of
                     (x, y, z) \<Rightarrow> calc_slow env (h @ map calc_at (take n pts)) x y z))))"
proof -
  define h where "h = calls st @ import_calls @ solve_calls info @ voltage_calls electrodes info"
  define pts where "pts = grid_points env info"
  have d: "2 \<le> sint (dimx info)" "2 \<le> sint (dimy info)" "2 \<le> sint (dimz info)"
    using assms(1-3) by (simp_all add: word_sle_eq)
  have run: "compute_potential env electrodes info (Some outfile) st =
      st\<lparr>calls := h @ map calc_at pts,
         files := (files st)(outfile \<mapsto> potentials env h pts)\<rparr>"
    using compute_potential_sampling[OF assms(4,5)] by (simp add: h_def pts_def)
  have len: "length (potentials env h pts) =
      nat (sint (dimx info) * sint (dimy info) * sint (dimz info))"
    using d
    by (simp add: length_potentials pts_def grid_points_def length_grid_order nat_mult3)
  have pt: "pts ! nat ((i * sint (dimy info) + j) * sint (dimz info) + k) =
        grid_point env info (word_of_int i, word_of_int j, word_of_int k) \<and>
      potentials env h pts ! nat ((i * sint (dimy info) + j) * sint (dimz info) + k) =
        (case grid_point env info (word_of_int i, word_of_int j, word_of_int k) of
           (x, y, z) \<Rightarrow> calc_slow env
              (h @ map calc_at
                 (take (nat ((i * sint (dimy info) + j) * sint (dimz info) + k)) pts)) x y z)"
    if "0 \<le> i \<and> i < sint (dimx info) \<and> 0 \<le> j \<and> j < sint (dimy info) \<and>
        0 \<le> k \<and> k < sint (dimz info)" for i j k
  proof -
    let ?n = "nat ((i * sint (dimy info) + j) * sint (dimz info) + k)"
    have lt: "?n < length (grid_order info)"
      and nth: "grid_order info ! ?n = (word_of_int i, word_of_int j, word_of_int k)"
      using that grid_index[of i info j k] by simp_all
    then have p: "pts ! ?n = grid_point env info (word_of_int i, word_of_int j, word_of_int k)"
      by (simp add: pts_def grid_points_def)
    have "?n < length pts" using lt by (simp add: pts_def grid_points_def)
    from potentials_nth[OF this, of env h] p show ?thesis by simp
  qed
  show ?thesis
    unfolding Let_def h_def[symmetric] pts_def[symmetric]
    using run len pt by blast
qed

theorem sampling_pass_output_witness:
  "2 \<le>s dimx test_info \<and> 2 \<le>s dimy test_info \<and> 2 \<le>s dimz test_info \<and>
   import_ok test_env (calls empty_state @ [Mkdir ''gen.cache'']) ''layout.dxf'' \<and>
   {1, 4} \<noteq> ({} :: int32 set) \<and>
   files (compute_potential test_env {1, 4} test_info (Some ''field1.txt'') empty_state)
     ''field1.txt'' = Some [0, 4, 2, 6, 1, 5, 3, 7] \<and>
   length [0, 4, 2, 6, 1, 5, 3, 7 :: real] =
     nat (sint (dimx test_info) * sint (dimy test_info) * sint (dimz test_info)) \<and>
   grid_points test_env test_info ! nat ((1 * sint (dimy test_info) + 0) * sint (dimz test_info) + 1) =
     (1, 0, 1) \<and>
   [0, 4, 2, 6, 1, 5, 3, 7 :: real] !
     nat ((1 * sint (dimy test_info) + 0) * sint (dimz test_info) + 1) = 1 + 2 * 0 + 4 * 1"
proof -
  have d: "2 \<le>s dimx test_info" "2 \<le>s dimy test_info" "2 \<le>s dimz test_info"
    by (simp_all add: test_info_def word_sle_eq)
  have ok: "import_ok test_env (calls empty_state @ [Mkdir ''gen.cache'']) ''layout.dxf''"
    by (simp add: test_env_def)
  have ne: "{1, 4} \<noteq> ({} :: int32 set)" by simp
  have s: "sint (dimx test_info) = 2" "sint (dimy test_info) = 2" "sint (dimz test_info) = 2"
    by (simp_all add: test_info_def)
  note t = sampling_pass_output[OF d ok ne, of "''field1.txt''", unfolded Let_def test_potentials]
  from t have f: "files (compute_potential test_env {1, 4} test_info (Some ''field1.txt'')
      empty_state) ''field1.txt'' = Some [0, 4, 2, 6, 1, 5, 3, 7]"
    by simp
  from t have l: "length [0, 4, 2, 6, 1, 5, 3, 7 :: real] =
      nat (sint (dimx test_info) * sint (dimy test_info) * sint (dimz test_info))"
    by simp
  have r: "0 \<le> (1::int) \<and> 1 < sint (dimx test_info) \<and> 0 \<le> (0::int) \<and> 0 < sint (dimy test_info) \<and>
      0 \<le> (1::int) \<and> 1 < sint (dimz test_info)"
    by (simp add: s)
  from t r have "grid_points test_env test_info !
      nat ((1 * sint (dimy test_info) + 0) * sint (dimz test_info) + 1) =
      grid_point test_env test_info (word_of_int 1, word_of_int 0, word_of_int 1)"
    by blast
  then have p: "grid_points test_env test_info !
      nat ((1 * sint (dimy test_info) + 0) * sint (dimz test_info) + 1) = (1, 0, 1)"
    by (simp add: grid_point_def axis_point_def test_env_def test_info_def)
  have v: "[0, 4, 2, 6, 1, 5, 3, 7 :: real] !
      nat ((1 * sint (dimy test_info) + 0) * sint (dimz test_info) + 1) = 1 + 2 * 0 + 4 * 1"
    by (simp add: s)
  from d ok ne f l p v show ?thesis by (intro conjI)
qed

text \<open>
  The claim C4 as stated fails on a sampling pass whose layout cannot be imported: the
  pass for index 1 of the scenario returns after the two calls of the import and writes
  no file.
\<close>

theorem sampling_pass_without_layout_counterexample:
  "2 \<le>s dimx test_info \<and> 2 \<le>s dimy test_info \<and> 2 \<le>s dimz test_info \<and>
   activation_set test_info 1 = {1, 4} \<and>
   compute_potential no_layout_env {1, 4} test_info (Some ''field1.txt'') empty_state =
     \<lparr>calls = [Mkdir ''gen.cache'', Import ''layout.dxf''], files = (\<lambda>name. None)\<rparr> \<and>
   files (compute_potential no_layout_env {1, 4} test_info (Some ''field1.txt'') empty_state)
     ''field1.txt'' = None"
proof -
  have d: "2 \<le>s dimx test_info" "2 \<le>s dimy test_info" "2 \<le>s dimz test_info"
    by (simp_all add: test_info_def word_sle_eq)
  have a: "activation_set test_info 1 = {1, 4}"
    by (auto simp: activation_set_def Let_def test_info_def word_sless_alt)
  have f: "\<not> import_ok no_layout_env (calls empty_state @ [Mkdir ''gen.cache'']) ''layout.dxf''"
    by (simp add: no_layout_env_def)
  have c: "compute_potential no_layout_env {1, 4} test_info (Some ''field1.txt'') empty_state =
      \<lparr>calls = [Mkdir ''gen.cache'', Import ''layout.dxf''], files = (\<lambda>name. None)\<rparr>"
    unfolding compute_potential_import_failed[OF f]
    by (simp add: import_calls_def empty_state_def)
  from d a c show ?thesis by simp
qed

text \<open>
  C1 (amended). In the pass for electrode index \<open>i\<close> the activation set is \<open>{i}\<close> for
  \<open>i \<le> 0\<close>, so \<open>{0}\<close> for \<open>i = 0\<close>, and \<open>{i, num_electrodes + i}\<close> for \<open>i > 0\<close>, the sum
  being one of 32-bit integers, which wraps around. Between solving and the first grid
  evaluation a pass whose layout import succeeds sets, for \<open>k\<close> from 0 up to
  \<open>2 * num_electrodes + 2\<close>, that bound left out and computed in 32-bit integers too,
  electrode \<open>k\<close> to 1 if \<open>k = i\<close> or (\<open>i > 0\<close> and \<open>k = num_electrodes + i\<close>) and to 0
  otherwise, then the ground to 0. An electrode whose index is outside that range is never
  set. If \<open>num_electrodes\<close> is between 0 and \<open>2^30 - 2\<close> nothing wraps in the bound, and
  the indices are those from 0 to \<open>2 * num_electrodes + 1\<close>; if \<open>num_electrodes + i\<close> is
  below \<open>2^31\<close> the partner is that number.
\<close>

theorem pass_voltages:
  assumes "import_ok env (calls st @ [Mkdir ''gen.cache'']) ''layout.dxf''"
  shows
    "activation_set info i = (if 0 <s i then {i, num_electrodes info + i} else {i}) \<and>
     (i = 0 \<longrightarrow> activation_set info i = {0}) \<and>
     calls (compute_potential env (activation_set info i) info (Some outfile) st) =
       calls st @ import_calls @ solve_calls info @
       map (\<lambda>k. Set_voltage (show_int k)
              (if k = i \<or> (0 <s i \<and> k = num_electrodes info + i) then 1 else 0))
         (range32 0 (2 * num_electrodes info + 2)) @
       [Set_voltage ''GROUND'' 0] @
       map calc_at (grid_points env info) \<and>
     (0 \<le> sint (num_electrodes info) \<and> sint (num_electrodes info) \<le> 1073741822 \<longrightarrow>
        map sint (range32 0 (2 * num_electrodes info + 2)) =
          [0..2 * sint (num_electrodes info) + 1]) \<and>
     (- 2147483648 \<le> sint (num_electrodes info) + sint i \<and>
      sint (num_electrodes info) + sint i \<le> 2147483647 \<longrightarrow>
        sint (num_electrodes info + i) = sint (num_electrodes info) + sint i)"
proof -
  have mem: "k \<in> activation_set info i \<longleftrightarrow> (k = i \<or> (0 <s i \<and> k = num_electrodes info + i))" for k
    by (auto simp: activation_set_def Let_def)
  have a: "activation_set info i = (if 0 <s i then {i, num_electrodes info + i} else {i})"
    by (auto simp: activation_set_def Let_def)
  have z: "i = 0 \<longrightarrow> activation_set info i = {0}"
    by (simp add: activation_set_def Let_def word_sless_alt)
  have ne: "activation_set info i \<noteq> {}"
    by (simp add: a)
  have v: "voltage_calls (activation_set info i) info =
      map (\<lambda>k. Set_voltage (show_int k)
             (if k = i \<or> (0 <s i \<and> k = num_electrodes info + i) then 1 else 0))
        (range32 0 (2 * num_electrodes info + 2)) @ [Set_voltage ''GROUND'' 0]"
    by (simp only: voltage_calls_def mem)
  have c: "calls (compute_potential env (activation_set info i) info (Some outfile) st) =
      calls st @ import_calls @ solve_calls info @
      map (\<lambda>k. Set_voltage (show_int k)
             (if k = i \<or> (0 <s i \<and> k = num_electrodes info + i) then 1 else 0))
        (range32 0 (2 * num_electrodes info + 2)) @
      [Set_voltage ''GROUND'' 0] @ map calc_at (grid_points env info)"
    unfolding compute_potential_sampling[OF assms ne] by (simp add: v)
  have r: "0 \<le> sint (num_electrodes info) \<and> sint (num_electrodes info) \<le> 1073741822 \<longrightarrow>
      map sint (range32 0 (2 * num_electrodes info + 2)) =
        [0..2 * sint (num_electrodes info) + 1]"
  proof (intro impI)
    assume "0 \<le> sint (num_electrodes info) \<and> sint (num_electrodes info) \<le> 1073741822"
    then have "sint (2 * num_electrodes info + 2) = 2 * sint (num_electrodes info) + 2"
      by (intro sint_total32) simp_all
    then have "sint (2 * num_electrodes info + 2) - 1 = 2 * sint (num_electrodes info) + 1"
      by simp
    then show "map sint (range32 0 (2 * num_electrodes info + 2)) =
        [0..2 * sint (num_electrodes info) + 1]"
      by (simp only: sint_range32)
  qed
  have s: "- 2147483648 \<le> sint (num_electrodes info) + sint i \<and>
      sint (num_electrodes info) + sint i \<le> 2147483647 \<longrightarrow>
      sint (num_electrodes info + i) = sint (num_electrodes info) + sint i"
    by (simp add: sint_add32)
  from a z c r s show ?thesis by (intro conjI)
qed

theorem pass_voltages_witness:
  "import_ok test_env (calls empty_state @ [Mkdir ''gen.cache'']) ''layout.dxf'' \<and>
   activation_set test_info 1 = {1, 4} \<and> activation_set test_info 0 = {0} \<and>
   voltages (calls (compute_potential test_env (activation_set test_info 1) test_info
                      (Some (field_file 1)) empty_state)) =
     [(''0'', 0), (''1'', 1), (''2'', 0), (''3'', 0), (''4'', 1), (''5'', 0), (''6'', 0),
      (''7'', 0), (''GROUND'', 0)] \<and>
   0 \<le> sint (num_electrodes test_info) \<and> sint (num_electrodes test_info) \<le> 1073741822 \<and>
   map sint (range32 0 (2 * num_electrodes test_info + 2)) = [0, 1, 2, 3, 4, 5, 6, 7] \<and>
   - 2147483648 \<le> sint (num_electrodes test_info) + sint (1 :: int32) \<and>
   sint (num_electrodes test_info) + sint (1 :: int32) \<le> 2147483647 \<and>
   sint (num_electrodes test_info + 1) = 4"
proof -
  have ok: "import_ok test_env (calls empty_state @ [Mkdir ''gen.cache'']) ''layout.dxf''"
    by (simp add: test_env_def)
  have n: "num_electrodes test_info = 3" by (simp add: test_info_def)
  have b: "0 \<le> sint (num_electrodes test_info) \<and> sint (num_electrodes test_info) \<le> 1073741822"
    "- 2147483648 \<le> sint (num_electrodes test_info) + sint (1 :: int32) \<and>
     sint (num_electrodes test_info) + sint (1 :: int32) \<le> 2147483647"
    by (simp_all add: n)
  note t1 = pass_voltages[OF ok, of test_info 1 "field_file 1"]
  note t0 = pass_voltages[OF ok, of test_info 0 "field_file 0"]
  from t1 have a1: "activation_set test_info 1 = {1, 4}"
    by (simp add: n word_sless_alt)
  from t0 have a0: "activation_set test_info 0 = {0}" by simp
  from t1 have c: "calls (compute_potential test_env (activation_set test_info 1) test_info
        (Some (field_file 1)) empty_state) =
      calls empty_state @ import_calls @ solve_calls test_info @
        map (\<lambda>k. Set_voltage (show_int k)
               (if k = 1 \<or> (0 <s (1 :: int32) \<and> k = num_electrodes test_info + 1) then 1 else 0))
          (range32 0 (2 * num_electrodes test_info + 2)) @
        [Set_voltage ''GROUND'' 0] @ map calc_at (grid_points test_env test_info)"
    by blast
  have v: "voltages (calls (compute_potential test_env (activation_set test_info 1) test_info
                      (Some (field_file 1)) empty_state)) =
      [(''0'', 0), (''1'', 1), (''2'', 0), (''3'', 0), (''4'', 1), (''5'', 0), (''6'', 0),
       (''7'', 0), (''GROUND'', 0)]"
    unfolding c
    by (simp add: voltages_append voltages_Insert voltages_calc_at voltages_Set_voltage
        import_calls_def solve_calls_def n word_sless_alt range32_0_8 show_int_digits
        empty_state_def)
  from t1 b(1) have "map sint (range32 0 (2 * num_electrodes test_info + 2)) =
      [0..2 * sint (num_electrodes test_info) + 1]"
    by blast
  then have r: "map sint (range32 0 (2 * num_electrodes test_info + 2)) = [0, 1, 2, 3, 4, 5, 6, 7]"
    by (simp add: n upto_rec1)
  from t1 b(2) have "sint (num_electrodes test_info + 1) =
      sint (num_electrodes test_info) + sint (1 :: int32)"
    by blast
  then have s: "sint (num_electrodes test_info + 1) = 4" by (simp add: n)
  from ok a1 a0 v b r s show ?thesis by (intro conjI) simp_all
qed

text \<open>
  The claim C1 as stated fails for index 5 of a layout with \<open>num_electrodes = 3\<close>: 5 is one
  of the eight electrodes, it is positive, and its partner 8 is set to nothing. It fails
  also for index 1 of a layout with \<open>num_electrodes = 2147483647\<close>: the partner is the
  electrode \<open>- 2147483648\<close>, the bound \<open>2 * num_electrodes + 2\<close> is 0, and only the ground
  is set.
\<close>

theorem partner_out_of_range_counterexample:
  "0 <s (5::int32) \<and> 5 <s 2 * num_electrodes test_info + 2 \<and>
   Set_voltage (show_int (5 + num_electrodes test_info)) 1 \<notin>
     set (calls (compute_potential test_env (activation_set test_info 5) test_info
                   (Some (field_file 5)) empty_state)) \<and>
   voltages (calls (compute_potential test_env (activation_set test_info 5) test_info
                      (Some (field_file 5)) empty_state)) =
     [(''0'', 0), (''1'', 0), (''2'', 0), (''3'', 0), (''4'', 0), (''5'', 1), (''6'', 0),
      (''7'', 0), (''GROUND'', 0)] \<and>
   sint ` activation_set (test_info\<lparr>num_electrodes := 2147483647\<rparr>) 1 = {1, - 2147483648} \<and>
   voltages (calls (compute_potential test_env
                      (activation_set (test_info\<lparr>num_electrodes := 2147483647\<rparr>) 1)
                      (test_info\<lparr>num_electrodes := 2147483647\<rparr>)
                      (Some (field_file 1)) empty_state)) =
     [(''GROUND'', 0)]"
proof -
  have ok: "import_ok test_env (calls empty_state @ [Mkdir ''gen.cache'']) ''layout.dxf''"
    by (simp add: test_env_def)
  have n: "num_electrodes test_info = 3" by (simp add: test_info_def)
  have a: "activation_set test_info 5 = {5, 8}"
    by (auto simp: activation_set_def Let_def n word_sless_alt)
  have ne: "{5, 8} \<noteq> ({} :: int32 set)" by simp
  define cs where "cs = import_calls @ solve_calls test_info @ voltage_calls {5, 8} test_info @
      map calc_at (grid_points test_env test_info)"
  have e: "calls empty_state = []" by (simp add: empty_state_def)
  have r: "calls (compute_potential test_env {5, 8} test_info (Some (field_file 5)) empty_state) =
      cs"
    unfolding compute_potential_sampling[OF ok ne] by (simp add: cs_def e)
  have v: "voltage_calls {5, 8} test_info =
      [Set_voltage ''0'' 0, Set_voltage ''1'' 0, Set_voltage ''2'' 0, Set_voltage ''3'' 0,
       Set_voltage ''4'' 0, Set_voltage ''5'' 1, Set_voltage ''6'' 0, Set_voltage ''7'' 0,
       Set_voltage ''GROUND'' 0]"
    by (simp add: voltage_calls_def n range32_0_8 show_int_digits)
  have m: "Set_voltage ''8'' 1 \<notin> set cs"
    using Set_voltage_not_calc_at[of "''8''" 1 "grid_points test_env test_info"]
      Set_voltage_not_solve_calls[of "''8''" 1 test_info]
    by (simp add: cs_def v)
  have vs: "voltages cs =
      [(''0'', 0), (''1'', 0), (''2'', 0), (''3'', 0), (''4'', 0), (''5'', 1), (''6'', 0),
       (''7'', 0), (''GROUND'', 0)]"
    unfolding cs_def voltages_pass by (simp add: n range32_0_8 show_int_digits)
  define big where "big = test_info\<lparr>num_electrodes := 2147483647\<rparr>"
  have nb: "num_electrodes big = 2147483647" by (simp add: big_def)
  have ab: "activation_set big 1 = {1, 2147483647 + 1}"
    by (auto simp: activation_set_def Let_def nb word_sless_alt)
  have sb: "sint ` activation_set big 1 = {1, - 2147483648}"
    unfolding ab by simp
  have neb: "activation_set big 1 \<noteq> {}" by (simp add: ab)
  have tb: "range32 0 (2 * num_electrodes big + 2) = []"
    by (simp add: nb range32_def)
  have vb: "voltages (calls (compute_potential test_env (activation_set big 1) big
      (Some (field_file 1)) empty_state)) = [(''GROUND'', 0)]"
    unfolding compute_potential_sampling[OF ok neb]
    by (simp add: e voltages_pass tb)
  have l: "0 <s (5::int32)" "5 <s 2 * num_electrodes test_info + 2"
    by (simp_all add: n word_sless_alt)
  have m': "Set_voltage (show_int (5 + num_electrodes test_info)) 1 \<notin>
     set (calls (compute_potential test_env (activation_set test_info 5) test_info
                   (Some (field_file 5)) empty_state))"
    unfolding a r using m by (simp add: n show_int_digits)
  have vs': "voltages (calls (compute_potential test_env (activation_set test_info 5) test_info
                      (Some (field_file 5)) empty_state)) =
     [(''0'', 0), (''1'', 0), (''2'', 0), (''3'', 0), (''4'', 0), (''5'', 1), (''6'', 0),
      (''7'', 0), (''GROUND'', 0)]"
    unfolding a r by (rule vs)
  from l m' vs' sb vb show ?thesis unfolding big_def by (intro conjI)
qed

section \<open>Properties of the driver\<close>

text \<open>
  C2 (amended). With \<open>start = stop\<close>, whatever the number, the driver runs the sampling
  pass on the empty set of electrodes with no output file, once the grid file is read; the
  exception of the loader ends the invocation before that. The pass imports the layout
  and, only if the import succeeds, builds the world on the cache path, inserts the
  electrodes, refines and solves; if the import fails it returns at once. In both cases it
  sets no voltage, evaluates no grid point and writes no file. The driver itself writes no
  cache: it hands the path \<open>gen.cache/savedworld.data\<close> to the world of the library.
\<close>

theorem priming_mode:
  "start = stop \<Longrightarrow>
   compute env fs start stop st =
     (case read_grid_info env fs ''grid.txt'' of
        Inl e \<Rightarrow> Inl e
      | Inr info \<Rightarrow> Inr (compute_potential env {} info None st)) \<and>
   compute_potential env {} info None st =
     st\<lparr>calls := calls st @
       (if import_ok env (calls st @ [Mkdir ''gen.cache'']) ''layout.dxf''
        then import_calls @ solve_calls info else import_calls)\<rparr>"
  by (simp add: compute_def compute_potential_priming compute_potential_import_failed
      split: sum.splits)

theorem priming_mode_witness:
  "(2::int32) = 2 \<and>
   compute test_env test_fs 2 2 empty_state =
     Inr \<lparr>calls =
       [Mkdir ''gen.cache'', Import ''layout.dxf'', New_world ''gen.cache/savedworld.data'',
        Insert ''0'', Insert ''1'', Insert ''2'', Insert ''3'', Insert ''4'', Insert ''5'',
        Insert ''6'', Insert ''7'', Insert ''GROUND'', Refine 100, Correct_norm 0 0 0, Solve],
       files = (\<lambda>name. None)\<rparr>"
proof -
  have ok: "import_ok test_env (calls empty_state @ [Mkdir ''gen.cache'']) ''layout.dxf''"
    by (simp add: test_env_def)
  have names: "map (\<lambda>k. Insert (show_int k)) (range32 0 (2 * num_electrodes test_info + 2)) =
      [Insert ''0'', Insert ''1'', Insert ''2'', Insert ''3'', Insert ''4'', Insert ''5'',
       Insert ''6'', Insert ''7'']"
    by (simp add: test_info_def range32_0_8 show_int_digits)
  from priming_mode[OF refl, of test_env test_fs 2 empty_state test_info]
  have "compute test_env test_fs 2 2 empty_state =
      Inr (empty_state\<lparr>calls := calls empty_state @ import_calls @ solve_calls test_info\<rparr>)"
    by (simp add: read_test_grid ok)
  then show ?thesis
    by (simp add: import_calls_def solve_calls_def names) (simp add: empty_state_def)
qed

text \<open>
  The claim C2 as stated fails on \<open>run(2, 2)\<close> with a layout that cannot be imported: the
  invocation returns after the two calls of the import and solves nothing. Without a grid
  file it ends in the exception of the loader, before any call.
\<close>

theorem priming_without_solve_counterexample:
  "compute no_layout_env test_fs 2 2 empty_state =
     Inr \<lparr>calls = [Mkdir ''gen.cache'', Import ''layout.dxf''], files = (\<lambda>name. None)\<rparr> \<and>
   Solve \<notin> set [Mkdir ''gen.cache'', Import ''layout.dxf'' :: real call] \<and>
   compute test_env (\<lambda>path. None) 2 2 empty_state = Inl Out_of_range"
proof -
  have g: "read_grid_info no_layout_env test_fs ''grid.txt'' = Inr test_info"
    using read_grid_info_cong[of no_layout_env test_env test_fs "''grid.txt''"]
    by (simp add: no_layout_env_def read_test_grid)
  have f: "\<not> import_ok no_layout_env (calls empty_state @ [Mkdir ''gen.cache'']) ''layout.dxf''"
    by (simp add: no_layout_env_def)
  have c: "compute no_layout_env test_fs 2 2 empty_state =
      Inr \<lparr>calls = [Mkdir ''gen.cache'', Import ''layout.dxf''], files = (\<lambda>name. None)\<rparr>"
    by (simp add: compute_def g compute_potential_import_failed[OF f])
       (simp add: import_calls_def empty_state_def)
  have "read_grid_info test_env (\<lambda>path. None) ''grid.txt'' = Inl Out_of_range"
    by (rule read_grid_info_short) (simp add: stream_lines_def)
  then have e: "compute test_env (\<lambda>path. None) 2 2 empty_state = Inl Out_of_range"
    by (simp add: compute_def)
  from c e show ?thesis by simp
qed

text \<open>
  C10. With \<open>start > stop\<close> the driver reads the grid file and takes the sampling branch,
  whose loop body never runs: no call reaches the solver and no file is written, so the
  state is returned as it was (or the exception of the loader is passed on).
\<close>

theorem empty_range_is_noop:
  "stop <s start \<Longrightarrow>
   compute env fs start stop st =
     (case read_grid_info env fs ''grid.txt'' of Inl e \<Rightarrow> Inl e | Inr info \<Rightarrow> Inr st)"
proof -
  assume "stop <s start"
  then have "start \<noteq> stop" and "\<not> start <s stop"
    by (auto simp: word_sless_alt)
  then show ?thesis
    by (simp add: compute_def compute_loop_done split: sum.splits)
qed

theorem empty_range_is_noop_witness:
  "(1::int32) <s 3 \<and> compute test_env test_fs 3 1 empty_state = Inr empty_state"
proof -
  have l: "(1::int32) <s 3" by (simp add: word_sless_alt)
  from empty_range_is_noop[OF l, of test_env test_fs empty_state] l
  show ?thesis by (simp add: read_test_grid)
qed

text \<open>
  C7 (amended). A failed layout import is not passed on: the sampling pass returns
  normally after the two calls of the import, having solved and written nothing, and the
  loop of the driver goes on with the next electrode index. The exception of the loader
  does end the invocation, before the first pass. Whatever the passes of a loop that
  starts at index \<open>i'\<close> do, the output file of an index below \<open>i'\<close> is left as it was.
\<close>

theorem failed_import_skips_one_index:
  "(\<not> import_ok env (calls st @ [Mkdir ''gen.cache'']) ''layout.dxf'' \<longrightarrow>
      compute_potential env electrodes info outfile st =
        st\<lparr>calls := calls st @ import_calls\<rparr> \<and>
      (i <s stop \<longrightarrow>
         compute_loop env info i stop st =
           compute_loop env info (i + 1) stop (st\<lparr>calls := calls st @ import_calls\<rparr>))) \<and>
   (read_grid_info env fs ''grid.txt'' = Inl e \<longrightarrow> compute env fs start stop1 st1 = Inl e) \<and>
   (j <s i' \<longrightarrow>
      files (compute_loop env info i' stop' st0) (field_file j) = files st0 (field_file j))"
proof -
  have "compute env fs start stop1 st1 = Inl e" if "read_grid_info env fs ''grid.txt'' = Inl e"
    using that by (simp add: compute_def)
  with compute_potential_import_failed[of env st electrodes info outfile]
    compute_loop_skip[of env st i stop info]
    compute_loop_earlier_files[of j i' env info stop' st0]
  show ?thesis by blast
qed

theorem failed_import_skips_one_index_witness:
  "\<not> import_ok no_layout_env (calls empty_state @ [Mkdir ''gen.cache'']) ''layout.dxf'' \<and>
   compute_potential no_layout_env {0} test_info (Some ''field0.txt'') empty_state =
     empty_state\<lparr>calls := calls empty_state @ import_calls\<rparr> \<and>
   (0::int32) <s 2 \<and>
   compute_loop no_layout_env test_info 0 2 empty_state =
     compute_loop no_layout_env test_info (0 + 1) 2
       (empty_state\<lparr>calls := calls empty_state @ import_calls\<rparr>) \<and>
   read_grid_info no_layout_env (\<lambda>path. None) ''grid.txt'' = Inl Out_of_range \<and>
   compute no_layout_env (\<lambda>path. None) 0 2 empty_state = Inl Out_of_range \<and>
   (0::int32) <s 1 \<and>
   compute_loop no_layout_env test_info 1 2
       (empty_state\<lparr>files := (files empty_state)(''field0.txt'' \<mapsto> [0, 4, 2, 6, 1, 5, 3, 7])\<rparr>) =
     empty_state\<lparr>files := (files empty_state)(''field0.txt'' \<mapsto> [0, 4, 2, 6, 1, 5, 3, 7]),
                 calls := import_calls\<rparr> \<and>
   files (compute_loop no_layout_env test_info 1 2
       (empty_state\<lparr>files := (files empty_state)(''field0.txt'' \<mapsto> [0, 4, 2, 6, 1, 5, 3, 7])\<rparr>))
     ''field0.txt'' =
     files (empty_state\<lparr>files := (files empty_state)(''field0.txt'' \<mapsto> [0, 4, 2, 6, 1, 5, 3, 7])\<rparr>)
       ''field0.txt''"
proof -
  define st0 where
    "st0 = empty_state\<lparr>files := (files empty_state)(''field0.txt'' \<mapsto> [0, 4, 2, 6, 1, 5, 3, 7])\<rparr>"
  have f: "\<not> import_ok no_layout_env (calls st @ [Mkdir ''gen.cache'']) ''layout.dxf''" for st
    by (simp add: no_layout_env_def)
  have l: "(0::int32) <s 2" "(0::int32) <s 1" "(1::int32) <s 2" "\<not> (2::int32) <s 2"
    by (simp_all add: word_sless_alt)
  have d: "compute_loop no_layout_env test_info 1 2 st0 = st0\<lparr>calls := import_calls\<rparr>"
    by (simp add: compute_loop_skip[OF f l(3)] compute_loop_done[OF l(4)])
       (simp add: st0_def empty_state_def)
  have g: "read_grid_info no_layout_env (\<lambda>path. None) ''grid.txt'' = Inl Out_of_range"
    by (rule read_grid_info_short) (simp add: stream_lines_def)
  note t = failed_import_skips_one_index
    [of no_layout_env empty_state "{0}" test_info "Some ''field0.txt''" 0 2
        "\<lambda>path. None" Out_of_range 0 2 empty_state 0 1 2 st0]
  from t f[of empty_state] have c1: "compute_potential no_layout_env {0} test_info
      (Some ''field0.txt'') empty_state = empty_state\<lparr>calls := calls empty_state @ import_calls\<rparr>"
    by blast
  from t f[of empty_state] l(1) have c2: "compute_loop no_layout_env test_info 0 2 empty_state =
      compute_loop no_layout_env test_info (0 + 1) 2
        (empty_state\<lparr>calls := calls empty_state @ import_calls\<rparr>)"
    by blast
  from t g have c3: "compute no_layout_env (\<lambda>path. None) 0 2 empty_state = Inl Out_of_range"
    by blast
  from t l(2) have "files (compute_loop no_layout_env test_info 1 2 st0) (field_file 0) =
      files st0 (field_file 0)"
    by blast
  then have c4: "files (compute_loop no_layout_env test_info 1 2 st0) ''field0.txt'' =
      files st0 ''field0.txt''"
    by (simp add: field_file_digits)
  from f[of empty_state] c1 l(1) c2 g c3 l(2) d c4 show ?thesis
    unfolding st0_def by (intro conjI)
qed

text \<open>
  The claim C7 as stated fails on \<open>run(0, 2)\<close>: with a layout that cannot be imported the
  driver still starts the pass for index 1, and with a layout that can be imported only
  from the second attempt on it writes the file of index 1 after the failure at index 0.
\<close>

theorem loop_goes_on_after_failed_import_counterexample:
  "\<not> import_ok no_layout_env (calls empty_state @ [Mkdir ''gen.cache'']) ''layout.dxf'' \<and>
   compute no_layout_env test_fs 0 2 empty_state =
     Inr \<lparr>calls = [Mkdir ''gen.cache'', Import ''layout.dxf'',
                   Mkdir ''gen.cache'', Import ''layout.dxf''],
          files = (\<lambda>name. None)\<rparr> \<and>
   \<not> import_ok late_layout_env (calls empty_state @ [Mkdir ''gen.cache'']) ''layout.dxf'' \<and>
   (case compute late_layout_env test_fs 0 2 empty_state of
      Inl e \<Rightarrow> False
    | Inr st' \<Rightarrow>
        files st' ''field0.txt'' = None \<and>
        files st' ''field1.txt'' = Some [0, 4, 2, 6, 1, 5, 3, 7])"
proof -
  have g1: "read_grid_info no_layout_env test_fs ''grid.txt'' = Inr test_info"
    using read_grid_info_cong[of no_layout_env test_env test_fs "''grid.txt''"]
    by (simp add: no_layout_env_def read_test_grid)
  have g2: "read_grid_info late_layout_env test_fs ''grid.txt'' = Inr test_info"
    using read_grid_info_cong[of late_layout_env test_env test_fs "''grid.txt''"]
    by (simp add: late_layout_env_def read_test_grid)
  have l: "(0::int32) <s 2" "(1::int32) <s 2" "\<not> (2::int32) <s 2"
    by (simp_all add: word_sless_alt)
  have f1: "\<not> import_ok no_layout_env (calls st @ [Mkdir ''gen.cache'']) ''layout.dxf''" for st
    by (simp add: no_layout_env_def)
  have "compute no_layout_env test_fs 0 2 empty_state =
      Inr (empty_state\<lparr>calls := calls empty_state @ import_calls @ import_calls\<rparr>)"
    by (simp add: compute_def g1 compute_loop_skip[OF f1 l(1)] compute_loop_skip[OF f1 l(2)]
        compute_loop_done[OF l(3)])
  then have c1: "compute no_layout_env test_fs 0 2 empty_state =
     Inr \<lparr>calls = [Mkdir ''gen.cache'', Import ''layout.dxf'',
                   Mkdir ''gen.cache'', Import ''layout.dxf''],
          files = (\<lambda>name. None)\<rparr>"
    by (simp add: import_calls_def empty_state_def)
  define st1 where "st1 = empty_state\<lparr>calls := calls empty_state @ import_calls\<rparr>"
  have f2: "\<not> import_ok late_layout_env (calls empty_state @ [Mkdir ''gen.cache'']) ''layout.dxf''"
    by (simp add: late_layout_env_def empty_state_def)
  have ok: "import_ok late_layout_env (calls st1 @ [Mkdir ''gen.cache'']) ''layout.dxf''"
    by (simp add: late_layout_env_def st1_def import_calls_def)
  have a: "activation_set test_info 1 = {1, 4}"
    by (auto simp: activation_set_def Let_def test_info_def word_sless_alt)
  have ne: "{1, 4} \<noteq> ({} :: int32 set)" by simp
  have "compute_loop late_layout_env test_info 0 2 empty_state =
      compute_loop late_layout_env test_info 1 2 st1"
    using compute_loop_skip[OF f2 l(1), of test_info] by (simp add: st1_def)
  also have "\<dots> = compute_loop late_layout_env test_info 2 2
      (compute_potential late_layout_env {1, 4} test_info (Some ''field1.txt'') st1)"
    using compute_loop_step[OF l(2), of late_layout_env test_info st1]
    by (simp add: a field_file_digits)
  also have "\<dots> = compute_potential late_layout_env {1, 4} test_info (Some ''field1.txt'') st1"
    by (rule compute_loop_done[OF l(3)])
  finally have "compute late_layout_env test_fs 0 2 empty_state =
      Inr (compute_potential late_layout_env {1, 4} test_info (Some ''field1.txt'') st1)"
    by (simp add: compute_def g2)
  moreover have fs: "files st1 = (\<lambda>name. None)" by (simp add: st1_def empty_state_def)
  ultimately have c2: "case compute late_layout_env test_fs 0 2 empty_state of
      Inl e \<Rightarrow> False
    | Inr st' \<Rightarrow>
        files st' ''field0.txt'' = None \<and>
        files st' ''field1.txt'' = Some [0, 4, 2, 6, 1, 5, 3, 7]"
    unfolding compute_potential_sampling[OF ok ne]
    by (simp add: test_grid_points_late test_potentials_late)
  from f1[of empty_state] c1 f2 c2 show ?thesis by (intro conjI)
qed

end
